theory Spec2Isabelle
  imports Complex_Main "HOL-Library.AList" "HOL-Library.List_Lexorder" "HOL-Library.Char_ord"
begin

section \<open>The SwitcherLabs Go client: data model\<close>

text \<open>
  The embedding follows \<^verbatim>\<open>switcherlabs.go\<close>. A value of Go type \<^verbatim>\<open>interface{}\<close>
  that \<^verbatim>\<open>encoding/json\<close> has decoded is one of: a bool, a float64, a string, nil, a slice
  or a map. JSON numbers are finite and never NaN, and only their order and equality are
  used, so a float64 is modelled by a rational. Go strings are byte strings compared
  bytewise, which is the lexicographic order on \<^typ>\<open>string\<close>.
\<close>

datatype val =
    VBool bool
  | VNum rat
  | VStr string
  | VNull
  | VArray "val list"
  | VObject "(string \<times> val) list"

text \<open>The three value types a typed entry point asserts: bool, float64, string.\<close>

datatype kind = KBool | KNumber | KString

definition typeBoolean :: string where "typeBoolean = ''boolean''"
definition typeNumber :: string where "typeNumber = ''number''"
definition typeString :: string where "typeString = ''string''"

fun typeName :: "kind \<Rightarrow> string" where
  "typeName KBool = typeBoolean"
| "typeName KNumber = typeNumber"
| "typeName KString = typeString"

text \<open>The \<^verbatim>\<open>switch expressionFlag.Type\<close> of the rule loop: which case, if any, applies.\<close>

definition kindOf :: "string \<Rightarrow> kind option" where
  "kindOf t =
     (if t = typeBoolean then Some KBool
      else if t = typeNumber then Some KNumber
      else if t = typeString then Some KString
      else None)"

text \<open>Durations are nanoseconds, as \<^verbatim>\<open>time.Duration\<close>; an instant is a number
  of nanoseconds since Go's zero \<^verbatim>\<open>time.Time{}\<close>.\<close>

type_synonym time = int

definition second :: int where "second = 1000000000"
definition stateRefreshRate :: int where "stateRefreshRate = 60 * second"
definition identityRefreshRate :: int where "identityRefreshRate = 5 * second"

datatype error =
    ErrFlagNotFound
  | ErrInvalidFlagType
  | APIError string string int
  | LibraryError string

record expression =
  FlagID :: string
  Op :: string
  Value :: val

record rule =
  Expression :: expression
  Value :: val

record flag =
  ID :: string
  Key :: string
  Type :: string
  Value :: val
  DynamicRules :: "rule list"

record override =
  ID :: string
  Key :: string
  Value :: val

record identity =
  ID :: string
  Identifier :: string
  Overrides :: "string \<rightharpoonup> val"
  fetchedAt :: time

record FlagOptions =
  Key :: string
  Identifier :: string

text \<open>
  The body of \<^verbatim>\<open>/sdk/initialize\<close> as \<^verbatim>\<open>refreshState\<close> decodes it: two
  slices of pointers. A JSON \<^verbatim>\<open>null\<close> element decodes to a nil pointer, here \<open>None\<close>.
\<close>

record response =
  Flags :: "flag option list"
  Overrides :: "override option list"

text \<open>
  The fields of \<^verbatim>\<open>client\<close> that evaluation reads and writes. The map of identities
  is an association list, because \<^verbatim>\<open>refreshState\<close> ranges over it and reads the
  clock once per entry; the list order stands for Go's unspecified iteration order.
  The mutex is left out: the model is of one sequential caller.
\<close>

record client =
  flags :: "string \<rightharpoonup> flag"
  flagsByID :: "string \<rightharpoonup> flag"
  overrides :: "string \<rightharpoonup> override"
  identities :: "(string \<times> identity) list"
  lastRefresh :: time

definition NewClient :: client where
  "NewClient =
     \<lparr>flags = Map.empty, flagsByID = Map.empty, overrides = Map.empty,
      identities = [], lastRefresh = 0\<rparr>"

section \<open>The world outside the client\<close>

text \<open>
  One use of \<^verbatim>\<open>call\<close>: \<^verbatim>\<open>newRequest\<close> fails, or the request is sent and
  \<^verbatim>\<open>HTTPClient.Do\<close> fails and hands back no response, or there is a response with
  its status code, the outcome of reading its body (\<open>Some\<close> is the read error), the
  error \<^verbatim>\<open>responseToError\<close> makes of the body, and what
  \<^verbatim>\<open>json.Unmarshal\<close> makes of the body.
\<close>

datatype 'a roundTrip =
    DoFails error
  | Responds nat "error option" error "error + 'a"

datatype 'a exchange =
    RequestFails error
  | Sent "'a roundTrip"

text \<open>
  The environment answers the \<open>n\<close>-th reading of \<^verbatim>\<open>time.Now()\<close>, the \<open>n\<close>-th
  request for the state and the \<open>n\<close>-th request for an identity. The world counts how
  many of each have happened.
\<close>

record env =
  clock :: "nat \<Rightarrow> time"
  stateExchange :: "nat \<Rightarrow> response exchange"
  identityExchange :: "nat \<Rightarrow> string \<Rightarrow> identity exchange"

record world =
  reads :: nat
  stateCalls :: nat
  identityCalls :: nat

type_synonym run = "client \<times> world"

text \<open>A Go call either returns or panics.\<close>

datatype 'a result = Return 'a | Panic

section \<open>Transport\<close>

text \<open>
  \<^verbatim>\<open>do\<close> reads \<^verbatim>\<open>res.StatusCode\<close> whether or not \<^verbatim>\<open>Do\<close> failed, so a
  transport failure is a nil dereference. From a status of 400 on the error is the one
  \<^verbatim>\<open>responseToError\<close> returns; it is never nil, since a nil \<^verbatim>\<open>*Error\<close>
  converted to \<^verbatim>\<open>error\<close> is a non-nil interface.
\<close>

fun do :: "'a roundTrip \<Rightarrow> (error + 'a) result" where
  "do (DoFails e) = Panic"
| "do (Responds status rd apiErr decoded) =
     (if status \<ge> 400 then Return (Inl apiErr)
      else (case rd of
              Some e \<Rightarrow> Return (Inl e)
            | None \<Rightarrow> Return decoded))"

fun call :: "'a exchange \<Rightarrow> (error + 'a) result" where
  "call (RequestFails e) = Return (Inl e)"
| "call (Sent rt) = do rt"

section \<open>Clock and staleness\<close>

definition timeNow :: "env \<Rightarrow> world \<Rightarrow> time \<times> world" where
  "timeNow E w = (clock E (reads w), w\<lparr>reads := Suc (reads w)\<rparr>)"

text \<open>\<^verbatim>\<open>i.fetchedAt.Add(identityRefreshRate).Before(time.Now())\<close>\<close>

definition isStale :: "env \<Rightarrow> identity \<Rightarrow> world \<Rightarrow> bool \<times> world" where
  "isStale E i w =
     (case timeNow E w of (t, w') \<Rightarrow> (fetchedAt i + identityRefreshRate < t, w'))"

section \<open>refreshState\<close>

fun indexFlags ::
  "flag option list \<Rightarrow> (string \<rightharpoonup> flag) \<times> (string \<rightharpoonup> flag) \<Rightarrow>
     ((string \<rightharpoonup> flag) \<times> (string \<rightharpoonup> flag)) option" where
  "indexFlags [] m = Some m"
| "indexFlags (None # fs) m = None"
| "indexFlags (Some f # fs) (byKey, byID) =
     indexFlags fs (byKey(flag.Key f \<mapsto> f), byID(flag.ID f \<mapsto> f))"

fun indexOverrides ::
  "override option list \<Rightarrow> (string \<rightharpoonup> override) \<Rightarrow> (string \<rightharpoonup> override) option" where
  "indexOverrides [] m = Some m"
| "indexOverrides (None # os) m = None"
| "indexOverrides (Some ov # os) m = indexOverrides os (m(override.Key ov \<mapsto> ov))"

text \<open>The sweep of the identities: every entry is tested with its own clock reading.\<close>

fun purge ::
  "env \<Rightarrow> (string \<times> identity) list \<Rightarrow> world \<Rightarrow> (string \<times> identity) list \<times> world" where
  "purge E [] w = ([], w)"
| "purge E ((identifier, i) # rest) w =
     (case isStale E i w of
        (stale, w') \<Rightarrow>
          (case purge E rest w' of
             (kept, w'') \<Rightarrow> (if stale then kept else (identifier, i) # kept, w'')))"

text \<open>
  The result is the \<^verbatim>\<open>error\<close> that \<^verbatim>\<open>refreshState\<close> returns, \<open>None\<close> for nil.
  The maps are built before anything is assigned, so a nil element of either slice
  panics with the client untouched.
\<close>

definition refreshState :: "env \<Rightarrow> run \<Rightarrow> error option result \<times> run" where
  "refreshState E s =
     (case s of (c, w) \<Rightarrow>
      (case timeNow E w of (now, w1) \<Rightarrow>
        if lastRefresh c + stateRefreshRate > now then (Return None, (c, w1))
        else
          let w2 = w1\<lparr>stateCalls := Suc (stateCalls w1)\<rparr> in
          (case call (stateExchange E (stateCalls w1)) of
             Panic \<Rightarrow> (Panic, (c, w2))
           | Return (Inl err) \<Rightarrow> (Return (Some err), (c, w2))
           | Return (Inr resp) \<Rightarrow>
               (case indexFlags (Flags resp) (Map.empty, Map.empty) of
                  None \<Rightarrow> (Panic, (c, w2))
                | Some (fs, fsByID) \<Rightarrow>
                    (case indexOverrides (response.Overrides resp) Map.empty of
                       None \<Rightarrow> (Panic, (c, w2))
                     | Some ovs \<Rightarrow>
                         (case purge E (identities c) w2 of
                            (kept, w3) \<Rightarrow>
                              (Return None,
                               (c\<lparr>flags := fs, flagsByID := fsByID, overrides := ovs,
                                  identities := kept, lastRefresh := now\<rparr>, w3))))))))"

section \<open>fetchIdentity\<close>

text \<open>The part of \<^verbatim>\<open>fetchIdentity\<close> after the cache has been missed.\<close>

definition fetchRemote :: "env \<Rightarrow> string \<Rightarrow> run \<Rightarrow> (error + identity) result \<times> run" where
  "fetchRemote E identifier s =
     (case s of (c, w) \<Rightarrow>
      let w1 = w\<lparr>identityCalls := Suc (identityCalls w)\<rparr> in
      (case call (identityExchange E (identityCalls w) identifier) of
         Panic \<Rightarrow> (Panic, (c, w1))
       | Return (Inl err) \<Rightarrow> (Return (Inl err), (c, w1))
       | Return (Inr fetched) \<Rightarrow>
           (case timeNow E w1 of
              (now, w2) \<Rightarrow>
                let newIdentity = fetched\<lparr>fetchedAt := now\<rparr> in
                (Return (Inr newIdentity),
                 (c\<lparr>identities :=
                      AList.update (identity.Identifier newIdentity) newIdentity (identities c)\<rparr>,
                  w2)))))"

definition fetchIdentity :: "env \<Rightarrow> string \<Rightarrow> run \<Rightarrow> (error + identity) result \<times> run" where
  "fetchIdentity E identifier s =
     (case s of (c, w) \<Rightarrow>
      (case map_of (identities c) identifier of
         None \<Rightarrow> fetchRemote E identifier (c, w)
       | Some i \<Rightarrow>
           (case isStale E i w of
              (stale, w') \<Rightarrow>
                if \<not> stale then (Return (Inr i), (c, w'))
                else fetchRemote E identifier (c, w'))))"

section \<open>Comparison operators\<close>

definition boolOperations :: "string \<rightharpoonup> (bool \<Rightarrow> bool \<Rightarrow> bool)" where
  "boolOperations =
     [''=='' \<mapsto> (\<lambda>a b. a = b),
      ''!='' \<mapsto> (\<lambda>a b. a \<noteq> b)]"

definition numberOperations :: "string \<rightharpoonup> (rat \<Rightarrow> rat \<Rightarrow> bool)" where
  "numberOperations =
     [''=='' \<mapsto> (\<lambda>a b. a = b),
      ''!='' \<mapsto> (\<lambda>a b. a \<noteq> b),
      ''<'' \<mapsto> (\<lambda>a b. a < b),
      ''<='' \<mapsto> (\<lambda>a b. a \<le> b),
      ''>'' \<mapsto> (\<lambda>a b. a > b),
      ''>='' \<mapsto> (\<lambda>a b. a \<ge> b)]"

definition stringOperations :: "string \<rightharpoonup> (string \<Rightarrow> string \<Rightarrow> bool)" where
  "stringOperations =
     [''=='' \<mapsto> (\<lambda>a b. a = b),
      ''!='' \<mapsto> (\<lambda>a b. a \<noteq> b),
      ''<'' \<mapsto> (\<lambda>a b. a < b),
      ''<='' \<mapsto> (\<lambda>a b. a \<le> b),
      ''>'' \<mapsto> (\<lambda>a b. a > b),
      ''>='' \<mapsto> (\<lambda>a b. a \<ge> b)]"

section \<open>Type assertions\<close>

fun hasKind :: "kind \<Rightarrow> val \<Rightarrow> bool" where
  "hasKind KBool (VBool b) = True"
| "hasKind KNumber (VNum x) = True"
| "hasKind KString (VStr t) = True"
| "hasKind k v = False"

fun zeroValue :: "kind \<Rightarrow> val" where
  "zeroValue KBool = VBool False"
| "zeroValue KNumber = VNum 0"
| "zeroValue KString = VStr []"

text \<open>
  What an entry point returns: the pair of a value and an \<^verbatim>\<open>error\<close>, \<open>None\<close> for
  nil. The value is kept under its tag; \<open>flagEval_kind\<close> below shows that the value an
  entry point returns always has the entry point's type.
\<close>

type_synonym ret = "val \<times> error option"

text \<open>\<^verbatim>\<open>x = v.(T); return x, nil\<close>: the unchecked assertion panics on another type.\<close>

definition returnAsserted :: "kind \<Rightarrow> val \<Rightarrow> ret result" where
  "returnAsserted k v = (if hasKind k v then Return (v, None) else Panic)"

text \<open>
  \<^verbatim>\<open>ruleExpressionValue := rule.Expression.Value.(T)\<close> followed by
  \<^verbatim>\<open>operations[rule.Expression.Op](flagValue, ruleExpressionValue)\<close>, for the table of
  the referenced flag's type. \<open>None\<close> is a panic: the assertion fails, or the table has
  no such operator and the nil function is called.
\<close>

definition compareValues :: "kind \<Rightarrow> string \<Rightarrow> val \<Rightarrow> val \<Rightarrow> bool option" where
  "compareValues k op flagValue ruleExpressionValue =
     (case k of
        KBool \<Rightarrow>
          (case (flagValue, ruleExpressionValue) of
             (VBool a, VBool b) \<Rightarrow> map_option (\<lambda>f. f a b) (boolOperations op)
           | _ \<Rightarrow> None)
      | KNumber \<Rightarrow>
          (case (flagValue, ruleExpressionValue) of
             (VNum a, VNum b) \<Rightarrow> map_option (\<lambda>f. f a b) (numberOperations op)
           | _ \<Rightarrow> None)
      | KString \<Rightarrow>
          (case (flagValue, ruleExpressionValue) of
             (VStr a, VStr b) \<Rightarrow> map_option (\<lambda>f. f a b) (stringOperations op)
           | _ \<Rightarrow> None))"

section \<open>The typed entry points\<close>

text \<open>
  \<^verbatim>\<open>BoolFlag\<close>, \<^verbatim>\<open>NumberFlag\<close> and \<^verbatim>\<open>StringFlag\<close> have the same body up
  to the asserted type, the zero value, and what happens when the identity cannot be
  fetched. \<open>flagEval\<close> is that body with the type as a parameter. The entry points call
  each other for the flag a rule refers to, with no bound on the depth, so \<open>flagEval\<close>
  takes the depth it may use and is \<open>None\<close> when that does not suffice.

  The rule loop is in two parts: \<open>ruleTest\<close> is one turn of the loop up to the
  comparison, \<open>rulesLoop\<close> the loop. Both take the entry points to call as \<open>rec\<close>.
\<close>

datatype test = Matched | NotMatched | Abort error | TestPanic

definition ruleTest ::
  "(kind \<Rightarrow> FlagOptions \<Rightarrow> run \<Rightarrow> (ret result \<times> run) option) \<Rightarrow>
     FlagOptions \<Rightarrow> rule \<Rightarrow> run \<Rightarrow> (test \<times> run) option" where
  "ruleTest rec opts r s =
     (case flagsByID (fst s) (FlagID (Expression r)) of
        None \<Rightarrow> Some (TestPanic, s)
      | Some expressionFlag \<Rightarrow>
          (case kindOf (flag.Type expressionFlag) of
             None \<Rightarrow> Some (NotMatched, s)
           | Some ek \<Rightarrow>
               (case rec ek \<lparr>Key = flag.Key expressionFlag,
                              Identifier = FlagOptions.Identifier opts\<rparr> s of
                  None \<Rightarrow> None
                | Some (Panic, s') \<Rightarrow> Some (TestPanic, s')
                | Some (Return (flagValue, Some err), s') \<Rightarrow> Some (Abort err, s')
                | Some (Return (flagValue, None), s') \<Rightarrow>
                    (case compareValues ek (Op (Expression r)) flagValue
                            (expression.Value (Expression r)) of
                       None \<Rightarrow> Some (TestPanic, s')
                     | Some True \<Rightarrow> Some (Matched, s')
                     | Some False \<Rightarrow> Some (NotMatched, s')))))"

datatype loopExit = Fallthrough | Exit "ret result"

fun rulesLoop ::
  "(kind \<Rightarrow> FlagOptions \<Rightarrow> run \<Rightarrow> (ret result \<times> run) option) \<Rightarrow>
     kind \<Rightarrow> FlagOptions \<Rightarrow> rule list \<Rightarrow> run \<Rightarrow> (loopExit \<times> run) option" where
  "rulesLoop rec k opts [] s = Some (Fallthrough, s)"
| "rulesLoop rec k opts (r # rs) s =
     (case ruleTest rec opts r s of
        None \<Rightarrow> None
      | Some (TestPanic, s') \<Rightarrow> Some (Exit Panic, s')
      | Some (Abort err, s') \<Rightarrow> Some (Exit (Return (zeroValue k, Some err)), s')
      | Some (Matched, s') \<Rightarrow> Some (Exit (returnAsserted k (rule.Value r)), s')
      | Some (NotMatched, s') \<Rightarrow> rulesLoop rec k opts rs s')"

text \<open>The body of an entry point from the global override on.\<close>

definition resolve ::
  "(kind \<Rightarrow> FlagOptions \<Rightarrow> run \<Rightarrow> (ret result \<times> run) option) \<Rightarrow>
     kind \<Rightarrow> FlagOptions \<Rightarrow> flag \<Rightarrow> run \<Rightarrow> (ret result \<times> run) option" where
  "resolve rec k opts f s =
     (case overrides (fst s) (FlagOptions.Key opts) of
        Some ov \<Rightarrow> Some (returnAsserted k (override.Value ov), s)
      | None \<Rightarrow>
          (case rulesLoop rec k opts (DynamicRules f) s of
             None \<Rightarrow> None
           | Some (Exit r, s') \<Rightarrow> Some (r, s')
           | Some (Fallthrough, s') \<Rightarrow> Some (returnAsserted k (flag.Value f), s')))"

text \<open>
  The error of \<^verbatim>\<open>refreshState\<close> is dropped by all three entry points. When the
  identity cannot be fetched, \<^verbatim>\<open>BoolFlag\<close> returns \<^verbatim>\<open>false, nil\<close> and the other
  two return the error.
\<close>

primrec flagEval ::
  "nat \<Rightarrow> env \<Rightarrow> kind \<Rightarrow> FlagOptions \<Rightarrow> run \<Rightarrow> (ret result \<times> run) option" where
  "flagEval 0 E k opts s = None"
| "flagEval (Suc n) E k opts s =
     (case refreshState E s of
        (Panic, s1) \<Rightarrow> Some (Panic, s1)
      | (Return ignored, s1) \<Rightarrow>
          (case flags (fst s1) (FlagOptions.Key opts) of
             None \<Rightarrow> Some (Return (zeroValue k, Some ErrFlagNotFound), s1)
           | Some f \<Rightarrow>
               if flag.Type f \<noteq> typeName k
               then Some (Return (zeroValue k, Some ErrInvalidFlagType), s1)
               else if FlagOptions.Identifier opts \<noteq> []
               then
                 (case fetchIdentity E (FlagOptions.Identifier opts) s1 of
                    (Panic, s2) \<Rightarrow> Some (Panic, s2)
                  | (Return (Inl err), s2) \<Rightarrow>
                      Some (Return (if k = KBool then (VBool False, None)
                                    else (zeroValue k, Some err)), s2)
                  | (Return (Inr i), s2) \<Rightarrow>
                      (case identity.Overrides i (FlagOptions.Key opts) of
                         Some v \<Rightarrow> Some (returnAsserted k v, s2)
                       | None \<Rightarrow> resolve (flagEval n E) k opts f s2))
               else resolve (flagEval n E) k opts f s1))"

definition BoolFlag :: "nat \<Rightarrow> env \<Rightarrow> FlagOptions \<Rightarrow> run \<Rightarrow> (ret result \<times> run) option" where
  "BoolFlag n E opts s = flagEval n E KBool opts s"

definition NumberFlag :: "nat \<Rightarrow> env \<Rightarrow> FlagOptions \<Rightarrow> run \<Rightarrow> (ret result \<times> run) option" where
  "NumberFlag n E opts s = flagEval n E KNumber opts s"

definition StringFlag :: "nat \<Rightarrow> env \<Rightarrow> FlagOptions \<Rightarrow> run \<Rightarrow> (ret result \<times> run) option" where
  "StringFlag n E opts s = flagEval n E KString opts s"

section \<open>Notions used to state the properties\<close>

text \<open>Whether the operator table of a type has an entry for \<open>op\<close>.\<close>

definition hasOperator :: "kind \<Rightarrow> string \<Rightarrow> bool" where
  "hasOperator k op =
     (case k of
        KBool \<Rightarrow> boolOperations op \<noteq> None
      | KNumber \<Rightarrow> numberOperations op \<noteq> None
      | KString \<Rightarrow> stringOperations op \<noteq> None)"

text \<open>
  The rules of a list are tested one after the other, each in the state its predecessor
  left, and every comparison is false: the state after the last test.
\<close>

fun testsFalse ::
  "(kind \<Rightarrow> FlagOptions \<Rightarrow> run \<Rightarrow> (ret result \<times> run) option) \<Rightarrow>
     FlagOptions \<Rightarrow> rule list \<Rightarrow> run \<Rightarrow> run option" where
  "testsFalse rec opts [] s = Some s"
| "testsFalse rec opts (r # rs) s =
     (case ruleTest rec opts r s of
        Some (NotMatched, s') \<Rightarrow> testsFalse rec opts rs s'
      | _ \<Rightarrow> None)"

text \<open>
  An entry point of type \<open>k\<close> gets as far as the global override: the refresh does not
  panic, the flag exists and has type \<open>k\<close>, and either no identifier is given or its
  identity is fetched and has no override for the key. The result is the flag and the
  state reached.
\<close>

definition pastIdentity :: "env \<Rightarrow> kind \<Rightarrow> FlagOptions \<Rightarrow> run \<Rightarrow> (flag \<times> run) option" where
  "pastIdentity E k opts s =
     (case refreshState E s of
        (Panic, s1) \<Rightarrow> None
      | (Return ignored, s1) \<Rightarrow>
          (case flags (fst s1) (FlagOptions.Key opts) of
             None \<Rightarrow> None
           | Some f \<Rightarrow>
               if flag.Type f \<noteq> typeName k then None
               else if FlagOptions.Identifier opts \<noteq> []
               then
                 (case fetchIdentity E (FlagOptions.Identifier opts) s1 of
                    (Return (Inr i), s2) \<Rightarrow>
                      (case identity.Overrides i (FlagOptions.Key opts) of
                         Some v \<Rightarrow> None
                       | None \<Rightarrow> Some (f, s2))
                  | _ \<Rightarrow> None)
               else Some (f, s1)))"

section \<open>A snapshot to run the client on\<close>

definition rule_of :: "string \<Rightarrow> string \<Rightarrow> val \<Rightarrow> val \<Rightarrow> rule" where
  "rule_of flagID op v result =
     \<lparr>Expression = \<lparr>FlagID = flagID, Op = op, expression.Value = v\<rparr>, rule.Value = result\<rparr>"

definition isBeta :: flag where
  "isBeta = \<lparr>flag.ID = ''f1'', flag.Key = ''is_beta'', flag.Type = ''boolean'',
             flag.Value = VBool True, flag.DynamicRules = []\<rparr>"

definition tier :: flag where
  "tier = \<lparr>flag.ID = ''f2'', flag.Key = ''tier'', flag.Type = ''string'',
           flag.Value = VStr ''free'',
           flag.DynamicRules =
             [rule_of ''f1'' ''=='' (VBool False) (VStr ''stable''),
              rule_of ''f1'' ''=='' (VBool True) (VStr ''beta''),
              rule_of ''f1'' ''=='' (VBool True) (VStr ''never'')]\<rparr>"

definition planLimit :: flag where
  "planLimit = \<lparr>flag.ID = ''f3'', flag.Key = ''plan_limit'', flag.Type = ''number'',
                flag.Value = VNum 10, flag.DynamicRules = []\<rparr>"

definition newFeature :: flag where
  "newFeature = \<lparr>flag.ID = ''f4'', flag.Key = ''new_feature'', flag.Type = ''boolean'',
                 flag.Value = VBool False, flag.DynamicRules = []\<rparr>"

definition badOp :: flag where
  "badOp = \<lparr>flag.ID = ''f5'', flag.Key = ''bad_op'', flag.Type = ''boolean'',
            flag.Value = VBool False,
            flag.DynamicRules = [rule_of ''f1'' ''<'' (VBool True) (VBool True)]\<rparr>"

definition badValue :: flag where
  "badValue = \<lparr>flag.ID = ''f8'', flag.Key = ''bad_value'', flag.Type = ''boolean'',
               flag.Value = VBool False,
               flag.DynamicRules = [rule_of ''f1'' ''=='' (VStr ''yes'') (VBool True)]\<rparr>"

definition badResult :: flag where
  "badResult = \<lparr>flag.ID = ''f9'', flag.Key = ''bad_result'', flag.Type = ''boolean'',
                flag.Value = VBool False,
                flag.DynamicRules = [rule_of ''f1'' ''=='' (VBool True) (VStr ''on'')]\<rparr>"

definition dangling :: flag where
  "dangling = \<lparr>flag.ID = ''f6'', flag.Key = ''dangling'', flag.Type = ''boolean'',
               flag.Value = VBool False,
               flag.DynamicRules = [rule_of ''nope'' ''=='' (VBool True) (VBool True)]\<rparr>"

text \<open>Two flags of one key: the later one of the response owns the key, both keep their id.\<close>

definition dupBool :: flag where
  "dupBool = \<lparr>flag.ID = ''g1'', flag.Key = ''dup'', flag.Type = ''boolean'',
              flag.Value = VBool True, flag.DynamicRules = []\<rparr>"

definition dupString :: flag where
  "dupString = \<lparr>flag.ID = ''g2'', flag.Key = ''dup'', flag.Type = ''string'',
                flag.Value = VStr ''x'', flag.DynamicRules = []\<rparr>"

definition gated :: flag where
  "gated = \<lparr>flag.ID = ''f7'', flag.Key = ''gated'', flag.Type = ''boolean'',
                flag.Value = VBool False,
                flag.DynamicRules = [rule_of ''g1'' ''=='' (VBool True) (VBool True)]\<rparr>"

definition exResponse :: response where
  "exResponse =
     \<lparr>Flags = [Some isBeta, Some tier, Some planLimit, Some newFeature, Some badOp,
               Some dangling, Some dupBool, Some dupString, Some gated, Some badValue,
               Some badResult],
      response.Overrides =
        [Some \<lparr>override.ID = ''o1'', override.Key = ''plan_limit'', override.Value = VNum 25\<rparr>,
         Some \<lparr>override.ID = ''o2'', override.Key = ''new_feature'',
               override.Value = VBool True\<rparr>]\<rparr>"

text \<open>The client after it has installed \<open>exResponse\<close> at time 0.\<close>

definition exClient :: client where
  "exClient =
     \<lparr>flags = [''is_beta'' \<mapsto> isBeta, ''tier'' \<mapsto> tier, ''plan_limit'' \<mapsto> planLimit,
               ''new_feature'' \<mapsto> newFeature, ''bad_op'' \<mapsto> badOp, ''dangling'' \<mapsto> dangling,
               ''dup'' \<mapsto> dupString, ''gated'' \<mapsto> gated, ''bad_value'' \<mapsto> badValue,
               ''bad_result'' \<mapsto> badResult],
      flagsByID = [''f1'' \<mapsto> isBeta, ''f2'' \<mapsto> tier, ''f3'' \<mapsto> planLimit,
                   ''f4'' \<mapsto> newFeature, ''f5'' \<mapsto> badOp, ''f6'' \<mapsto> dangling,
                   ''g1'' \<mapsto> dupBool, ''g2'' \<mapsto> dupString, ''f7'' \<mapsto> gated,
                   ''f8'' \<mapsto> badValue, ''f9'' \<mapsto> badResult],
      overrides =
        [''plan_limit'' \<mapsto>
           \<lparr>override.ID = ''o1'', override.Key = ''plan_limit'', override.Value = VNum 25\<rparr>,
         ''new_feature'' \<mapsto>
           \<lparr>override.ID = ''o2'', override.Key = ''new_feature'',
            override.Value = VBool True\<rparr>],
      identities = [],
      lastRefresh = 0\<rparr>"

definition user123 :: identity where
  "user123 = \<lparr>identity.ID = ''i1'', identity.Identifier = ''user_123'',
              identity.Overrides = [''new_feature'' \<mapsto> VBool False], fetchedAt = 0\<rparr>"

definition bob :: identity where
  "bob = \<lparr>identity.ID = ''i2'', identity.Identifier = ''bob'',
          identity.Overrides = Map.empty, fetchedAt = 0\<rparr>"

definition upper :: identity where
  "upper = \<lparr>identity.ID = ''i1'', identity.Identifier = ''USER_123'',
            identity.Overrides = Map.empty, fetchedAt = 0\<rparr>"

text \<open>The same client with three identities in its cache, all fetched at time 0.\<close>

definition exCached :: client where
  "exCached =
     exClient\<lparr>identities := [(''user_123'', user123), (''bob'', bob), (''USER_123'', upper)]\<rparr>"

definition notFound :: error where
  "notFound = APIError ''not_found'' ''identity does not exist'' 404"

definition unavailable :: error where
  "unavailable = APIError ''unavailable'' ''try again later'' 503"

definition world0 :: world where
  "world0 = \<lparr>reads = 0, stateCalls = 0, identityCalls = 0\<rparr>"

text \<open>
  An environment whose clock stands at \<open>t\<close>, whose state endpoint answers \<open>st\<close> and whose
  identity endpoint knows \<^verbatim>\<open>user_123\<close> only, under either spelling.
\<close>

definition exEnv :: "time \<Rightarrow> response exchange \<Rightarrow> env" where
  "exEnv t st =
     \<lparr>clock = (\<lambda>n. t),
      stateExchange = (\<lambda>n. st),
      identityExchange =
        (\<lambda>n identifier.
           if identifier = ''user_123'' \<or> identifier = ''USER_123''
           then Sent (Responds 200 None notFound (Inr user123))
           else Sent (Responds 404 None notFound (Inl notFound)))\<rparr>"

definition stateDown :: "response exchange" where
  "stateDown = Sent (Responds 503 None unavailable (Inl unavailable))"

definition stateUp :: "response exchange" where
  "stateUp = Sent (Responds 200 None unavailable (Inr exResponse))"



section \<open>Facts about the model\<close>

lemmas ex_defs = exEnv_def exClient_def exCached_def world0_def isBeta_def tier_def
  planLimit_def newFeature_def badOp_def badValue_def badResult_def
  dangling_def dupBool_def dupString_def gated_def user123_def bob_def upper_def notFound_def unavailable_def rule_of_def
  stateDown_def stateUp_def exResponse_def
lemmas op_defs = boolOperations_def numberOperations_def stringOperations_def compareValues_def
lemmas eval_defs = refreshState_def fetchIdentity_def fetchRemote_def isStale_def timeNow_def
  resolve_def ruleTest_def returnAsserted_def kindOf_def typeBoolean_def typeNumber_def
  typeString_def stateRefreshRate_def identityRefreshRate_def second_def Let_def
  pastIdentity_def hasOperator_def

text \<open>When \<^verbatim>\<open>call\<close> returns an error, and when it panics.\<close>

lemma call_returns_error:
  "call x = Return (Inl e) \<longleftrightarrow>
     x = RequestFails e
     \<or> (\<exists>status rd apiErr decoded.
           x = Sent (Responds status rd apiErr decoded)
           \<and> (if status \<ge> 400 then e = apiErr
                else rd = Some e \<or> (rd = None \<and> decoded = Inl e)))"
proof (cases x)
  case (RequestFails e')
  then show ?thesis by auto
next
  case (Sent rt)
  then show ?thesis by (cases rt) (auto split: option.splits)
qed

lemma call_panics:
  "call x = Panic \<longleftrightarrow> (\<exists>e. x = Sent (DoFails e))"
proof (cases x)
  case (RequestFails e')
  then show ?thesis by simp
next
  case (Sent rt)
  then show ?thesis by (cases rt) (auto split: option.splits)
qed

lemma isStale_eq:
  "isStale E i w =
     (fetchedAt i + identityRefreshRate < clock E (reads w), w\<lparr>reads := Suc (reads w)\<rparr>)"
  by (simp add: isStale_def timeNow_def)

lemma purge_calls:
  "purge E ids w = (kept, w') \<Longrightarrow>
     stateCalls w' = stateCalls w \<and> identityCalls w' = identityCalls w"
proof (induction ids arbitrary: w kept w')
  case Nil
  then show ?case by simp
next
  case (Cons p ids)
  obtain key i where p: "p = (key, i)" by (cases p)
  obtain kept1 w1 where r: "purge E ids (w\<lparr>reads := Suc (reads w)\<rparr>) = (kept1, w1)"
    by (cases "purge E ids (w\<lparr>reads := Suc (reads w)\<rparr>)")
  from Cons.IH [OF r] have "stateCalls w1 = stateCalls w \<and> identityCalls w1 = identityCalls w"
    by simp
  moreover from Cons.prems p r have "w' = w1"
    by (simp add: isStale_eq split: if_splits)
  ultimately show ?case by simp
qed

lemma refreshState_fresh:
  assumes "clock E (reads w) < lastRefresh c + stateRefreshRate"
  shows "refreshState E (c, w) = (Return None, (c, w\<lparr>reads := Suc (reads w)\<rparr>))"
  using assms by (simp add: refreshState_def timeNow_def)

lemma refreshState_failed:
  assumes "\<not> clock E (reads w) < lastRefresh c + stateRefreshRate"
    and "call (stateExchange E (stateCalls w)) = Return (Inl err)"
  shows "refreshState E (c, w) =
           (Return (Some err), (c, w\<lparr>reads := Suc (reads w), stateCalls := Suc (stateCalls w)\<rparr>))"
  using assms by (simp add: refreshState_def timeNow_def Let_def)

lemma refreshState_swapped:
  assumes "\<not> clock E (reads w) < lastRefresh c + stateRefreshRate"
    and "call (stateExchange E (stateCalls w)) = Return (Inr resp)"
    and "indexFlags (Flags resp) (Map.empty, Map.empty) = Some (fs, fsByID)"
    and "indexOverrides (response.Overrides resp) Map.empty = Some ovs"
  shows "refreshState E (c, w) =
           (Return None,
            (c\<lparr>flags := fs, flagsByID := fsByID, overrides := ovs,
               identities :=
                 fst (purge E (identities c)
                        (w\<lparr>reads := Suc (reads w), stateCalls := Suc (stateCalls w)\<rparr>)),
               lastRefresh := clock E (reads w)\<rparr>,
             snd (purge E (identities c)
                    (w\<lparr>reads := Suc (reads w), stateCalls := Suc (stateCalls w)\<rparr>))))"
  using assms by (simp add: refreshState_def timeNow_def Let_def split: prod.splits)

lemma refreshState_due_calls:
  assumes "\<not> clock E (reads w) < lastRefresh c + stateRefreshRate"
  shows "stateCalls (snd (snd (refreshState E (c, w)))) = Suc (stateCalls w)"
proof -
  let ?w2 = "w\<lparr>reads := Suc (reads w), stateCalls := Suc (stateCalls w)\<rparr>"
  obtain kept w' where p: "purge E (identities c) ?w2 = (kept, w')"
    by (cases "purge E (identities c) ?w2")
  from purge_calls [OF p] have "stateCalls w' = Suc (stateCalls w)" by simp
  with assms p show ?thesis
    by (simp add: refreshState_def timeNow_def Let_def
        split: result.splits sum.splits option.splits prod.splits)
qed

lemma fetchRemote_calls:
  "identityCalls (snd (snd (fetchRemote E identifier (c, w)))) = Suc (identityCalls w)"
  by (simp add: fetchRemote_def timeNow_def Let_def split: result.splits sum.splits)

lemma fetchRemote_ok:
  assumes "call (identityExchange E (identityCalls w) identifier) = Return (Inr fetched)"
  shows "fetchRemote E identifier (c, w) =
           (Return (Inr (fetched\<lparr>fetchedAt := clock E (reads w)\<rparr>)),
            (c\<lparr>identities :=
                 AList.update (identity.Identifier fetched)
                   (fetched\<lparr>fetchedAt := clock E (reads w)\<rparr>) (identities c)\<rparr>,
             w\<lparr>reads := Suc (reads w), identityCalls := Suc (identityCalls w)\<rparr>))"
  using assms by (simp add: fetchRemote_def timeNow_def Let_def)

lemma fetchIdentity_hit:
  assumes "map_of (identities c) identifier = Some i"
    and "\<not> fetchedAt i + identityRefreshRate < clock E (reads w)"
  shows "fetchIdentity E identifier (c, w) = (Return (Inr i), (c, w\<lparr>reads := Suc (reads w)\<rparr>))"
  using assms by (simp add: fetchIdentity_def isStale_eq)

lemma fetchIdentity_stale:
  assumes "map_of (identities c) identifier = Some i"
    and "fetchedAt i + identityRefreshRate < clock E (reads w)"
  shows "fetchIdentity E identifier (c, w) = fetchRemote E identifier (c, w\<lparr>reads := Suc (reads w)\<rparr>)"
  using assms by (simp add: fetchIdentity_def isStale_eq)

lemma fetchIdentity_absent:
  assumes "map_of (identities c) identifier = None"
  shows "fetchIdentity E identifier (c, w) = fetchRemote E identifier (c, w)"
  using assms by (simp add: fetchIdentity_def)

text \<open>An error that \<^verbatim>\<open>fetchIdentity\<close> or \<^verbatim>\<open>refreshState\<close> returns is the one
  \<^verbatim>\<open>call\<close> returned.\<close>

lemma fetchIdentity_error_from_call:
  assumes "fetchIdentity E identifier (c, w) = (Return (Inl e), s')"
  shows "call (identityExchange E (identityCalls w) identifier) = Return (Inl e)"
  using assms
  by (auto simp: fetchIdentity_def fetchRemote_def isStale_eq timeNow_def Let_def
      split: option.splits if_splits result.splits sum.splits)

lemma refreshState_error_from_call:
  assumes "refreshState E (c, w) = (Return (Some e), s')"
  shows "call (stateExchange E (stateCalls w)) = Return (Inl e)"
  using assms
  by (auto simp: refreshState_def timeNow_def Let_def
      split: option.splits if_splits result.splits sum.splits prod.splits)

lemma exClient_installed:
  "indexFlags (Flags exResponse) (Map.empty, Map.empty) = Some (flags exClient, flagsByID exClient)"
  "indexOverrides (response.Overrides exResponse) Map.empty = Some (overrides exClient)"
  by (simp_all add: ex_defs)

text \<open>The rule loop: rules whose test is false are passed over, the first other test
  decides.\<close>

lemma rulesLoop_skip:
  "testsFalse rec opts pre s = Some s' \<Longrightarrow>
     rulesLoop rec k opts (pre @ rest) s = rulesLoop rec k opts rest s'"
proof (induction pre arbitrary: s)
  case Nil
  then show ?case by simp
next
  case (Cons r pre)
  from Cons.prems obtain s1 where t: "ruleTest rec opts r s = Some (NotMatched, s1)"
    and rest: "testsFalse rec opts pre s1 = Some s'"
    by (auto split: option.splits prod.splits test.splits)
  from Cons.IH [OF rest] t show ?case by simp
qed

lemma rulesLoop_first_match:
  assumes "testsFalse rec opts pre s = Some s'"
    and "ruleTest rec opts r s' = Some (Matched, s'')"
  shows "rulesLoop rec k opts (pre @ r # post) s = Some (Exit (returnAsserted k (rule.Value r)), s'')"
  using assms by (simp add: rulesLoop_skip)

lemma rulesLoop_no_match:
  assumes "testsFalse rec opts rs s = Some s'"
  shows "rulesLoop rec k opts rs s = Some (Fallthrough, s')"
  using rulesLoop_skip [OF assms, of k "[]"] by simp

lemma rulesLoop_abort:
  assumes "testsFalse rec opts pre s = Some s'"
    and "ruleTest rec opts r s' = Some (Abort err, s'')"
  shows "rulesLoop rec k opts (pre @ r # post) s = Some (Exit (Return (zeroValue k, Some err)), s'')"
  using assms by (simp add: rulesLoop_skip)

lemma rulesLoop_panic:
  assumes "testsFalse rec opts pre s = Some s'"
    and "ruleTest rec opts r s' = Some (TestPanic, s'')"
  shows "rulesLoop rec k opts (pre @ r # post) s = Some (Exit Panic, s'')"
  using assms by (simp add: rulesLoop_skip)

lemma flagEval_past:
  assumes "pastIdentity E k opts s = Some (f, s2)"
  shows "flagEval (Suc n) E k opts s = resolve (flagEval n E) k opts f s2"
  using assms
  by (auto simp: pastIdentity_def split: prod.splits result.splits option.splits if_splits sum.splits)

lemma resolve_rules:
  assumes "overrides (fst s) (FlagOptions.Key opts) = None"
    and "rulesLoop rec k opts (DynamicRules f) s = Some (Exit r, s')"
  shows "resolve rec k opts f s = Some (r, s')"
  using assms by (simp add: resolve_def)

lemma resolve_default:
  assumes "overrides (fst s) (FlagOptions.Key opts) = None"
    and "rulesLoop rec k opts (DynamicRules f) s = Some (Fallthrough, s')"
  shows "resolve rec k opts f s = Some (returnAsserted k (flag.Value f), s')"
  using assms by (simp add: resolve_def)

lemma hasKind_zeroValue: "hasKind k (zeroValue k)"
  by (cases k) simp_all

lemma returnAsserted_kind: "returnAsserted k v = Return (x, e) \<Longrightarrow> hasKind k x"
  by (simp add: returnAsserted_def split: if_splits)

lemma rulesLoop_kind:
  "rulesLoop rec k opts rs s = Some (Exit (Return (x, e)), s') \<Longrightarrow> hasKind k x"
proof (induction rs arbitrary: s)
  case Nil
  then show ?case by simp
next
  case (Cons r rs)
  then show ?case
    by (auto simp: hasKind_zeroValue split: option.splits prod.splits test.splits
        dest: returnAsserted_kind)
qed

lemma resolve_kind:
  "resolve rec k opts f s = Some (Return (x, e), s') \<Longrightarrow> hasKind k x"
  by (auto simp: resolve_def split: option.splits prod.splits loopExit.splits
      dest: returnAsserted_kind rulesLoop_kind)

lemma flagEval_kind:
  assumes "flagEval n E k opts s = Some (Return (x, e), s')"
  shows "hasKind k x"
proof (cases n)
  case 0
  with assms show ?thesis by simp
next
  case (Suc m)
  with assms show ?thesis
    by (auto simp: hasKind_zeroValue
        split: prod.splits result.splits option.splits if_splits sum.splits
        dest: returnAsserted_kind resolve_kind)
qed

lemma compareValues_panics:
  assumes "hasKind ek a"
  shows "compareValues ek op a b = None \<longleftrightarrow> \<not> hasOperator ek op \<or> \<not> hasKind ek b"
  using assms
  by (cases ek; cases a; cases b) (auto simp: compareValues_def hasOperator_def)

text \<open>More depth does not change a result.\<close>

lemma ruleTest_mono:
  assumes "\<And>k opts s x. rec k opts s = Some x \<Longrightarrow> rec' k opts s = Some x"
    and "ruleTest rec opts r s = Some y"
  shows "ruleTest rec' opts r s = Some y"
proof (cases "flagsByID (fst s) (FlagID (Expression r))")
  case None
  with assms(2) show ?thesis by (simp add: ruleTest_def)
next
  case (Some ef)
  show ?thesis
  proof (cases "kindOf (flag.Type ef)")
    case None
    with Some assms(2) show ?thesis by (simp add: ruleTest_def)
  next
    case ek: (Some ek)
    let ?o = "\<lparr>Key = flag.Key ef, Identifier = FlagOptions.Identifier opts\<rparr>"
    from Some ek assms(2) obtain x where x: "rec ek ?o s = Some x"
      by (cases "rec ek ?o s") (simp_all add: ruleTest_def)
    from assms(1) [OF x] have "rec' ek ?o s = Some x" .
    with x Some ek assms(2) show ?thesis by (simp add: ruleTest_def)
  qed
qed

lemma rulesLoop_mono:
  assumes "\<And>k opts s x. rec k opts s = Some x \<Longrightarrow> rec' k opts s = Some x"
  shows "rulesLoop rec k opts rs s = Some y \<Longrightarrow> rulesLoop rec' k opts rs s = Some y"
proof (induction rs arbitrary: s)
  case Nil
  then show ?case by simp
next
  case (Cons r rs)
  from Cons.prems obtain t where t: "ruleTest rec opts r s = Some t"
    by (cases "ruleTest rec opts r s") simp_all
  from ruleTest_mono [of rec rec', OF assms t] have t': "ruleTest rec' opts r s = Some t" .
  obtain v s1 where ts: "t = (v, s1)" by (cases t)
  show ?case
  proof (cases v)
    case NotMatched
    with Cons.prems t ts have "rulesLoop rec k opts rs s1 = Some y" by simp
    from Cons.IH [OF this] NotMatched t' ts show ?thesis by simp
  qed (use Cons.prems t t' ts in simp_all)
qed

lemma resolve_mono:
  assumes "\<And>k opts s x. rec k opts s = Some x \<Longrightarrow> rec' k opts s = Some x"
    and "resolve rec k opts f s = Some y"
  shows "resolve rec' k opts f s = Some y"
proof (cases "overrides (fst s) (FlagOptions.Key opts)")
  case (Some ov)
  with assms(2) show ?thesis by (simp add: resolve_def)
next
  case None
  with assms(2) obtain l where l: "rulesLoop rec k opts (DynamicRules f) s = Some l"
    by (cases "rulesLoop rec k opts (DynamicRules f) s") (simp_all add: resolve_def)
  from rulesLoop_mono [of rec rec', OF assms(1) l]
  have "rulesLoop rec' k opts (DynamicRules f) s = Some l" .
  with l None assms(2) show ?thesis by (simp add: resolve_def)
qed

lemma flagEval_Suc:
  "flagEval n E k opts s = Some x \<Longrightarrow> flagEval (Suc n) E k opts s = Some x"
proof (induction n arbitrary: k opts s x)
  case 0
  then show ?case by simp
next
  case (Suc n)
  have step: "\<And>k opts s x. flagEval n E k opts s = Some x \<Longrightarrow> flagEval (Suc n) E k opts s = Some x"
    by (rule Suc.IH)
  note rm = resolve_mono [of "flagEval n E" "flagEval (Suc n) E", OF step]
  from Suc.prems show ?case
    apply (subst flagEval.simps(2))
    apply (subst (asm) flagEval.simps(2))
    apply (auto split: prod.splits result.splits option.splits if_splits sum.splits intro: rm)
    done
qed

lemma flagEval_more_fuel:
  "flagEval n E k opts s = Some x \<Longrightarrow> flagEval (n + m) E k opts s = Some x"
  by (induction m) (auto dest: flagEval_Suc)

section \<open>The refresh of the snapshot\<close>

text \<open>
  Claim C8. A refresh triggered at time \<open>t\<close>, the previous one being at \<open>t0\<close>, does
  nothing when \<open>t < t0 + 60s\<close>: the state endpoint is not called and the client is as it
  was. When \<open>t \<ge> t0 + 60s\<close> the endpoint is called once, and when it answers with a body
  that decodes, with no null element, the new maps are installed and \<open>lastRefresh\<close> is \<open>t\<close>.
\<close>

theorem refreshState_gate:
  "(clock E (reads w) < lastRefresh c + 60 * second \<longrightarrow>
      refreshState E (c, w) = (Return None, (c, w\<lparr>reads := Suc (reads w)\<rparr>)))
   \<and> (lastRefresh c + 60 * second \<le> clock E (reads w) \<longrightarrow>
        stateCalls (snd (snd (refreshState E (c, w)))) = Suc (stateCalls w)
        \<and> (call (stateExchange E (stateCalls w)) = Return (Inr resp) \<longrightarrow>
             indexFlags (Flags resp) (Map.empty, Map.empty) = Some (fs, fsByID) \<longrightarrow>
             indexOverrides (response.Overrides resp) Map.empty = Some ovs \<longrightarrow>
             fst (refreshState E (c, w)) = Return None
             \<and> flags (fst (snd (refreshState E (c, w)))) = fs
             \<and> flagsByID (fst (snd (refreshState E (c, w)))) = fsByID
             \<and> overrides (fst (snd (refreshState E (c, w)))) = ovs
             \<and> lastRefresh (fst (snd (refreshState E (c, w)))) = clock E (reads w)))"
proof (intro conjI impI)
  assume "clock E (reads w) < lastRefresh c + 60 * second"
  then show "refreshState E (c, w) = (Return None, (c, w\<lparr>reads := Suc (reads w)\<rparr>))"
    by (simp add: refreshState_fresh stateRefreshRate_def)
next
  assume due: "lastRefresh c + 60 * second \<le> clock E (reads w)"
  then have nf: "\<not> clock E (reads w) < lastRefresh c + stateRefreshRate"
    by (simp add: stateRefreshRate_def)
  show "stateCalls (snd (snd (refreshState E (c, w)))) = Suc (stateCalls w)"
    by (rule refreshState_due_calls [OF nf])
  assume ok: "call (stateExchange E (stateCalls w)) = Return (Inr resp)"
    "indexFlags (Flags resp) (Map.empty, Map.empty) = Some (fs, fsByID)"
    "indexOverrides (response.Overrides resp) Map.empty = Some ovs"
  note sw = refreshState_swapped [OF nf ok]
  show "fst (refreshState E (c, w)) = Return None" by (simp add: sw)
  show "flags (fst (snd (refreshState E (c, w)))) = fs" by (simp add: sw)
  show "flagsByID (fst (snd (refreshState E (c, w)))) = fsByID" by (simp add: sw)
  show "overrides (fst (snd (refreshState E (c, w)))) = ovs" by (simp add: sw)
  show "lastRefresh (fst (snd (refreshState E (c, w)))) = clock E (reads w)" by (simp add: sw)
qed


text \<open>At 59s the client that refreshed at 0 does nothing; at 60s a new client installs
  the response.\<close>

theorem refreshState_gate_witness:
  "refreshState (exEnv (59 * second) stateUp) (exClient, world0)
     = (Return None, (exClient, world0\<lparr>reads := 1\<rparr>))
   \<and> stateCalls (snd (snd (refreshState (exEnv (60 * second) stateUp) (NewClient, world0)))) = 1
   \<and> fst (refreshState (exEnv (60 * second) stateUp) (NewClient, world0)) = Return None
   \<and> flags (fst (snd (refreshState (exEnv (60 * second) stateUp) (NewClient, world0))))
        = flags exClient
   \<and> lastRefresh (fst (snd (refreshState (exEnv (60 * second) stateUp) (NewClient, world0))))
        = 60 * second"
proof -
  have fresh: "clock (exEnv (59 * second) stateUp) (reads world0) < lastRefresh exClient + 60 * second"
    by (simp add: exEnv_def exClient_def second_def)
  have due: "lastRefresh NewClient + 60 * second \<le> clock (exEnv (60 * second) stateUp) (reads world0)"
    by (simp add: exEnv_def NewClient_def)
  have ok: "call (stateExchange (exEnv (60 * second) stateUp) (stateCalls world0)) = Return (Inr exResponse)"
    by (simp add: exEnv_def stateUp_def)
  have fl: "indexFlags (Flags exResponse) (Map.empty, Map.empty) = Some (flags exClient, flagsByID exClient)"
    by (simp add: ex_defs)
  have ov: "indexOverrides (response.Overrides exResponse) Map.empty = Some (overrides exClient)"
    by (simp add: ex_defs)
  from refreshState_gate [of "exEnv (59 * second) stateUp" world0 exClient] fresh
  have a: "refreshState (exEnv (59 * second) stateUp) (exClient, world0)
     = (Return None, (exClient, world0\<lparr>reads := 1\<rparr>))"
    by (simp add: world0_def)
  from refreshState_gate [of "exEnv (60 * second) stateUp" world0 NewClient exResponse
      "flags exClient" "flagsByID exClient" "overrides exClient"] due ok fl ov
  show ?thesis using a by (simp add: world0_def exEnv_def)
qed

text \<open>
  Claim C4. When a refresh is due and the call of the state endpoint returns an error,
  \<^verbatim>\<open>refreshState\<close> returns that error and the client, with its three maps, its
  identities and \<open>lastRefresh\<close>, is the one before the attempt; so every later evaluation,
  whatever the world then does, answers as it would have from the client before.
\<close>

theorem refreshState_failure_keeps_client:
  assumes due: "lastRefresh c + stateRefreshRate \<le> clock E (reads w)"
    and failed: "call (stateExchange E (stateCalls w)) = Return (Inl err)"
  shows "fst (refreshState E (c, w)) = Return (Some err)
         \<and> fst (snd (refreshState E (c, w))) = c
         \<and> (\<forall>n E' k opts w'.
               flagEval n E' k opts (fst (snd (refreshState E (c, w))), w')
                 = flagEval n E' k opts (c, w'))"
proof -
  from due have "\<not> clock E (reads w) < lastRefresh c + stateRefreshRate" by simp
  from refreshState_failed [OF this failed] show ?thesis by simp
qed

text \<open>The state endpoint answers 503 at 60s.\<close>

theorem refreshState_failure_keeps_client_witness:
  "fst (refreshState (exEnv (60 * second) stateDown) (exCached, world0)) = Return (Some unavailable)
   \<and> fst (snd (refreshState (exEnv (60 * second) stateDown) (exCached, world0))) = exCached"
proof -
  have due: "lastRefresh exCached + stateRefreshRate \<le> clock (exEnv (60 * second) stateDown) (reads world0)"
    by (simp add: exEnv_def exCached_def exClient_def stateRefreshRate_def)
  have failed: "call (stateExchange (exEnv (60 * second) stateDown) (stateCalls world0)) = Return (Inl unavailable)"
    by (simp add: exEnv_def stateDown_def)
  from refreshState_failure_keeps_client [OF due failed] show ?thesis by simp
qed




section \<open>The cache of identities\<close>

text \<open>
  Claim C7, as the code has it. For a cached entry stamped \<open>t0\<close>, a call at \<open>t \<le> t0 + 5s\<close>
  returns the entry and does not call the identity endpoint; a call at \<open>t > t0 + 5s\<close>
  calls it once. When that call succeeds, the response, stamped with the time read
  after it, is stored under the response's own \<^verbatim>\<open>Identifier\<close>, and replaces the entry
  when that is the identifier asked for.
\<close>

theorem fetchIdentity_window:
  assumes cached: "map_of (identities c) identifier = Some i"
  shows "(clock E (reads w) \<le> fetchedAt i + 5 * second \<longrightarrow>
            fetchIdentity E identifier (c, w) = (Return (Inr i), (c, w\<lparr>reads := Suc (reads w)\<rparr>)))
         \<and> (fetchedAt i + 5 * second < clock E (reads w) \<longrightarrow>
              identityCalls (snd (snd (fetchIdentity E identifier (c, w)))) = Suc (identityCalls w)
              \<and> (\<forall>fetched.
                    call (identityExchange E (identityCalls w) identifier) = Return (Inr fetched) \<longrightarrow>
                    fetchIdentity E identifier (c, w) =
                      (Return (Inr (fetched\<lparr>fetchedAt := clock E (Suc (reads w))\<rparr>)),
                       (c\<lparr>identities :=
                            AList.update (identity.Identifier fetched)
                              (fetched\<lparr>fetchedAt := clock E (Suc (reads w))\<rparr>) (identities c)\<rparr>,
                        w\<lparr>reads := Suc (Suc (reads w)),
                          identityCalls := Suc (identityCalls w)\<rparr>))
                    \<and> (identity.Identifier fetched = identifier \<longrightarrow>
                         map_of (identities (fst (snd (fetchIdentity E identifier (c, w))))) identifier
                           = Some (fetched\<lparr>fetchedAt := clock E (Suc (reads w))\<rparr>))))"
proof (intro conjI impI allI)
  assume "clock E (reads w) \<le> fetchedAt i + 5 * second"
  then have "\<not> fetchedAt i + identityRefreshRate < clock E (reads w)"
    by (simp add: identityRefreshRate_def)
  from fetchIdentity_hit [OF cached this]
  show "fetchIdentity E identifier (c, w) = (Return (Inr i), (c, w\<lparr>reads := Suc (reads w)\<rparr>))" .
next
  assume "fetchedAt i + 5 * second < clock E (reads w)"
  then have st: "fetchedAt i + identityRefreshRate < clock E (reads w)"
    by (simp add: identityRefreshRate_def)
  note eq = fetchIdentity_stale [OF cached st]
  show "identityCalls (snd (snd (fetchIdentity E identifier (c, w)))) = Suc (identityCalls w)"
    by (simp add: eq fetchRemote_calls)
  fix fetched
  assume ok: "call (identityExchange E (identityCalls w) identifier) = Return (Inr fetched)"
  then have ok': "call (identityExchange E (identityCalls (w\<lparr>reads := Suc (reads w)\<rparr>)) identifier)
                    = Return (Inr fetched)" by simp
  note r = fetchRemote_ok [OF ok', of c]
  show "fetchIdentity E identifier (c, w) =
          (Return (Inr (fetched\<lparr>fetchedAt := clock E (Suc (reads w))\<rparr>)),
           (c\<lparr>identities :=
                AList.update (identity.Identifier fetched)
                  (fetched\<lparr>fetchedAt := clock E (Suc (reads w))\<rparr>) (identities c)\<rparr>,
            w\<lparr>reads := Suc (Suc (reads w)), identityCalls := Suc (identityCalls w)\<rparr>))"
    by (simp add: eq r)
  assume "identity.Identifier fetched = identifier"
  then show "map_of (identities (fst (snd (fetchIdentity E identifier (c, w))))) identifier
               = Some (fetched\<lparr>fetchedAt := clock E (Suc (reads w))\<rparr>)"
    by (simp add: eq r update_conv')
qed

text \<open>An entry stamped 0 is served at 5s and fetched again one nanosecond later.\<close>

theorem fetchIdentity_window_witness:
  "fetchIdentity (exEnv (5 * second) stateDown) ''user_123'' (exCached, world0)
     = (Return (Inr user123), (exCached, world0\<lparr>reads := 1\<rparr>))
   \<and> identityCalls (snd (snd (fetchIdentity (exEnv (5 * second + 1) stateDown) ''user_123''
                                  (exCached, world0)))) = 1
   \<and> map_of (identities (fst (snd (fetchIdentity (exEnv (5 * second + 1) stateDown) ''user_123''
                                       (exCached, world0))))) ''user_123''
       = Some (user123\<lparr>fetchedAt := 5 * second + 1\<rparr>)"
proof -
  have cached: "map_of (identities exCached) ''user_123'' = Some user123"
    by (simp add: exCached_def)
  have fresh: "clock (exEnv (5 * second) stateDown) (reads world0) \<le> fetchedAt user123 + 5 * second"
    by (simp add: exEnv_def user123_def)
  have stale: "fetchedAt user123 + 5 * second < clock (exEnv (5 * second + 1) stateDown) (reads world0)"
    by (simp add: exEnv_def user123_def)
  have ok: "call (identityExchange (exEnv (5 * second + 1) stateDown) (identityCalls world0) ''user_123'')
              = Return (Inr user123)"
    by (simp add: exEnv_def)
  have same: "identity.Identifier user123 = ''user_123''"
    by (simp add: user123_def)
  from fetchIdentity_window [OF cached, of "exEnv (5 * second) stateDown" world0] fresh
  have a: "fetchIdentity (exEnv (5 * second) stateDown) ''user_123'' (exCached, world0)
     = (Return (Inr user123), (exCached, world0\<lparr>reads := 1\<rparr>))"
    by (simp add: world0_def)
  from fetchIdentity_window [OF cached, of "exEnv (5 * second + 1) stateDown" world0] stale ok same
  have b: "identityCalls (snd (snd (fetchIdentity (exEnv (5 * second + 1) stateDown) ''user_123''
                                  (exCached, world0)))) = Suc (identityCalls world0)
     \<and> map_of (identities (fst (snd (fetchIdentity (exEnv (5 * second + 1) stateDown) ''user_123''
                                       (exCached, world0))))) ''user_123''
       = Some (user123\<lparr>fetchedAt := clock (exEnv (5 * second + 1) stateDown) (Suc (reads world0))\<rparr>)"
    by blast
  from a b show ?thesis by (simp add: world0_def exEnv_def)
qed

text \<open>
  Claim C7 as stated fails: at exactly \<open>t0 + 5s\<close> the entry stamped \<open>t0 = 0\<close> is served
  and the endpoint is not called; at 6s the fetch of \<^verbatim>\<open>bob\<close> fails and his entry
  stays; at 6s the fetch of \<^verbatim>\<open>USER_123\<close> succeeds and the entry under that key stays,
  the response being stored under \<^verbatim>\<open>user_123\<close>.
\<close>

theorem fetchIdentity_window_counterexample:
  "fetchIdentity (exEnv (0 + 5 * second) stateDown) ''user_123'' (exCached, world0)
     = (Return (Inr user123), (exCached, world0\<lparr>reads := 1\<rparr>))
   \<and> fetchedAt user123 = 0
   \<and> fetchIdentity (exEnv (6 * second) stateDown) ''bob'' (exCached, world0)
       = (Return (Inl notFound), (exCached, world0\<lparr>reads := 1, identityCalls := 1\<rparr>))
   \<and> map_of (identities (fst (snd (fetchIdentity (exEnv (6 * second) stateDown) ''USER_123''
                                       (exCached, world0))))) ''USER_123''
       = Some upper"
  by (simp add: fetchIdentity_def fetchRemote_def isStale_def timeNow_def identityRefreshRate_def
      second_def Let_def exEnv_def exCached_def world0_def user123_def bob_def upper_def)

text \<open>
  Claim C10. After a miss (no entry, or a stale one) and a successful fetch, the response,
  stamped with the time read after the call, is put in the cache under its own
  \<^verbatim>\<open>Identifier\<close>, not under the identifier asked for. So when the two differ and the
  clock does not run backwards, the next call for the same identifier calls the endpoint
  again; when they are equal, the next call within the window is served from the cache.
\<close>

theorem fetchIdentity_keyed_by_response:
  assumes miss: "case map_of (identities c) identifier of
                   None \<Rightarrow> True
                 | Some i \<Rightarrow> fetchedAt i + identityRefreshRate < clock E (reads w)"
    and ok: "call (identityExchange E (identityCalls w) identifier) = Return (Inr fetched)"
    and res: "fetchIdentity E identifier (c, w) = (r, (c', w'))"
    and stamp: "stamped = fetched\<lparr>fetchedAt := clock E (reads w' - 1)\<rparr>"
  shows "r = Return (Inr stamped)
         \<and> identities c' = AList.update (identity.Identifier fetched) stamped (identities c)
         \<and> identityCalls w' = Suc (identityCalls w)
         \<and> (identity.Identifier fetched \<noteq> identifier \<longrightarrow>
              (\<forall>m n. m \<le> n \<longrightarrow> clock E m \<le> clock E n) \<longrightarrow>
              identityCalls (snd (snd (fetchIdentity E identifier (c', w')))) = Suc (identityCalls w'))
         \<and> (identity.Identifier fetched = identifier \<longrightarrow>
              clock E (reads w') \<le> fetchedAt stamped + identityRefreshRate \<longrightarrow>
              fetchIdentity E identifier (c', w')
                = (Return (Inr stamped), (c', w'\<lparr>reads := Suc (reads w')\<rparr>)))"
proof -
  define w0 where "w0 = (case map_of (identities c) identifier of
                           None \<Rightarrow> w | Some i \<Rightarrow> w\<lparr>reads := Suc (reads w)\<rparr>)"
  have w0_calls: "identityCalls w0 = identityCalls w"
    by (simp add: w0_def split: option.splits)
  have w0_reads: "reads w \<le> reads w0"
    by (simp add: w0_def split: option.splits)
  have eq: "fetchIdentity E identifier (c, w) = fetchRemote E identifier (c, w0)"
    using miss
    by (auto simp: w0_def fetchIdentity_absent fetchIdentity_stale split: option.splits)
  from ok w0_calls
  have ok0: "call (identityExchange E (identityCalls w0) identifier) = Return (Inr fetched)"
    by simp
  from res eq fetchRemote_ok [OF ok0, of c]
  have r: "r = Return (Inr (fetched\<lparr>fetchedAt := clock E (reads w0)\<rparr>))"
    and c': "c' = c\<lparr>identities :=
                      AList.update (identity.Identifier fetched)
                        (fetched\<lparr>fetchedAt := clock E (reads w0)\<rparr>) (identities c)\<rparr>"
    and w': "w' = w0\<lparr>reads := Suc (reads w0), identityCalls := Suc (identityCalls w0)\<rparr>"
    by simp_all
  from w' have "reads w' - 1 = reads w0" by simp
  with stamp have st: "stamped = fetched\<lparr>fetchedAt := clock E (reads w0)\<rparr>" by simp
  have other: "identityCalls (snd (snd (fetchIdentity E identifier (c', w')))) = Suc (identityCalls w')"
    if ne: "identity.Identifier fetched \<noteq> identifier"
      and mono: "\<forall>m n. m \<le> n \<longrightarrow> clock E m \<le> clock E n"
  proof (cases "map_of (identities c) identifier")
    case None
    with ne c' have "map_of (identities c') identifier = None"
      by (simp add: update_conv')
    from fetchIdentity_absent [OF this] show ?thesis
      by (simp add: fetchRemote_calls)
  next
    case (Some i)
    with ne c' have old: "map_of (identities c') identifier = Some i"
      by (simp add: update_conv')
    from Some miss have "fetchedAt i + identityRefreshRate < clock E (reads w)" by simp
    also from mono w' w0_reads have "clock E (reads w) \<le> clock E (reads w')" by simp
    finally have "fetchedAt i + identityRefreshRate < clock E (reads w')" .
    from fetchIdentity_stale [OF old this] show ?thesis
      by (simp add: fetchRemote_calls)
  qed
  have same: "fetchIdentity E identifier (c', w')
                = (Return (Inr stamped), (c', w'\<lparr>reads := Suc (reads w')\<rparr>))"
    if e: "identity.Identifier fetched = identifier"
      and fr: "clock E (reads w') \<le> fetchedAt stamped + identityRefreshRate"
  proof -
    from e c' st have "map_of (identities c') identifier = Some stamped"
      by (simp add: update_conv')
    moreover from fr have "\<not> fetchedAt stamped + identityRefreshRate < clock E (reads w')"
      by simp
    ultimately show ?thesis by (rule fetchIdentity_hit)
  qed
  from r c' w' st w0_calls other same show ?thesis by simp
qed

text \<open>The endpoint answers \<^verbatim>\<open>USER_123\<close> and \<^verbatim>\<open>user_123\<close> with the identity
  \<^verbatim>\<open>user_123\<close>.\<close>

theorem fetchIdentity_keyed_by_response_witness:
  "fetchIdentity (exEnv 0 stateDown) ''USER_123'' (exClient, world0)
     = (Return (Inr user123),
        (exClient\<lparr>identities := [(''user_123'', user123)]\<rparr>,
         world0\<lparr>reads := 1, identityCalls := 1\<rparr>))
   \<and> identityCalls (snd (snd (fetchIdentity (exEnv 0 stateDown) ''USER_123''
         (exClient\<lparr>identities := [(''user_123'', user123)]\<rparr>,
          world0\<lparr>reads := 1, identityCalls := 1\<rparr>)))) = 2
   \<and> fetchIdentity (exEnv 0 stateDown) ''user_123'' (exClient, world0)
     = (Return (Inr user123),
        (exClient\<lparr>identities := [(''user_123'', user123)]\<rparr>,
         world0\<lparr>reads := 1, identityCalls := 1\<rparr>))
   \<and> fetchIdentity (exEnv 0 stateDown) ''user_123''
         (exClient\<lparr>identities := [(''user_123'', user123)]\<rparr>,
          world0\<lparr>reads := 1, identityCalls := 1\<rparr>)
     = (Return (Inr user123),
        (exClient\<lparr>identities := [(''user_123'', user123)]\<rparr>,
         world0\<lparr>reads := 2, identityCalls := 1\<rparr>))"
proof -
  let ?E = "exEnv 0 stateDown"
  let ?c' = "exClient\<lparr>identities := [(''user_123'', user123)]\<rparr>"
  let ?w' = "world0\<lparr>reads := 1, identityCalls := 1\<rparr>"
  have miss: "case map_of (identities exClient) ''USER_123'' of
                None \<Rightarrow> True
              | Some i \<Rightarrow> fetchedAt i + identityRefreshRate < clock ?E (reads world0)"
    "case map_of (identities exClient) ''user_123'' of
                None \<Rightarrow> True
              | Some i \<Rightarrow> fetchedAt i + identityRefreshRate < clock ?E (reads world0)"
    by (simp_all add: exClient_def)
  have ok: "call (identityExchange ?E (identityCalls world0) ''USER_123'') = Return (Inr user123)"
    "call (identityExchange ?E (identityCalls world0) ''user_123'') = Return (Inr user123)"
    by (simp_all add: exEnv_def)
  have res: "fetchIdentity ?E ''USER_123'' (exClient, world0) = (Return (Inr user123), (?c', ?w'))"
    "fetchIdentity ?E ''user_123'' (exClient, world0) = (Return (Inr user123), (?c', ?w'))"
    by (simp_all add: fetchIdentity_def fetchRemote_def timeNow_def Let_def exEnv_def
        exClient_def world0_def user123_def)
  have stamp: "user123 = user123\<lparr>fetchedAt := clock ?E (reads ?w' - 1)\<rparr>"
    by (simp add: exEnv_def user123_def)
  have ne: "identity.Identifier user123 \<noteq> ''USER_123''"
    and e: "identity.Identifier user123 = ''user_123''"
    by (simp_all add: user123_def)
  have mono: "\<forall>m n. m \<le> n \<longrightarrow> clock ?E m \<le> clock ?E n"
    by (simp add: exEnv_def)
  have fr: "clock ?E (reads ?w') \<le> fetchedAt user123 + identityRefreshRate"
    by (simp add: exEnv_def user123_def identityRefreshRate_def second_def)
  from fetchIdentity_keyed_by_response [OF miss(1) ok(1) res(1) stamp] ne mono
  have a: "identityCalls (snd (snd (fetchIdentity ?E ''USER_123'' (?c', ?w')))) = Suc (identityCalls ?w')"
    by blast
  from fetchIdentity_keyed_by_response [OF miss(2) ok(2) res(2) stamp] e fr
  have b: "fetchIdentity ?E ''user_123'' (?c', ?w')
             = (Return (Inr user123), (?c', ?w'\<lparr>reads := Suc (reads ?w')\<rparr>))"
    by blast
  from res a b show ?thesis by (simp add: world0_def)
qed

section \<open>The precedence chain\<close>

text \<open>
  Claim C1. For an entry point of type \<open>k\<close>, a key whose flag is in the snapshot with type
  \<open>k\<close>, and a non-empty identifier whose identity is fetched: the result is the identity's
  override for the key when there is one; otherwise the global override when there is
  one; otherwise the result value of the first rule whose test is true, the rules before
  it having tested false; otherwise, all rules having tested false, the flag's own value.
  In each case the value is returned with a nil error when it has type \<open>k\<close>, which is what
  \<open>returnAsserted\<close> says. The depth \<open>Suc n\<close> suffices as soon as \<open>n\<close> does for the flags the
  rules refer to.
\<close>

theorem precedence_chain:
  assumes refreshed: "refreshState E s = (Return ignored, s1)"
    and found: "flags (fst s1) (FlagOptions.Key opts) = Some f"
    and typed: "flag.Type f = typeName k"
    and named: "FlagOptions.Identifier opts \<noteq> []"
    and fetched: "fetchIdentity E (FlagOptions.Identifier opts) s1 = (Return (Inr i), s2)"
  shows "(\<forall>v. identity.Overrides i (FlagOptions.Key opts) = Some v \<longrightarrow>
            flagEval (Suc n) E k opts s = Some (returnAsserted k v, s2))
       \<and> (\<forall>ov. identity.Overrides i (FlagOptions.Key opts) = None \<longrightarrow>
            overrides (fst s2) (FlagOptions.Key opts) = Some ov \<longrightarrow>
            flagEval (Suc n) E k opts s = Some (returnAsserted k (override.Value ov), s2))
       \<and> (\<forall>pre r post s3 s4.
            identity.Overrides i (FlagOptions.Key opts) = None \<longrightarrow>
            overrides (fst s2) (FlagOptions.Key opts) = None \<longrightarrow>
            DynamicRules f = pre @ r # post \<longrightarrow>
            testsFalse (flagEval n E) opts pre s2 = Some s3 \<longrightarrow>
            ruleTest (flagEval n E) opts r s3 = Some (Matched, s4) \<longrightarrow>
            flagEval (Suc n) E k opts s = Some (returnAsserted k (rule.Value r), s4))
       \<and> (\<forall>s3.
            identity.Overrides i (FlagOptions.Key opts) = None \<longrightarrow>
            overrides (fst s2) (FlagOptions.Key opts) = None \<longrightarrow>
            testsFalse (flagEval n E) opts (DynamicRules f) s2 = Some s3 \<longrightarrow>
            flagEval (Suc n) E k opts s = Some (returnAsserted k (flag.Value f), s3))"
proof (intro conjI allI impI)
  fix v
  assume "identity.Overrides i (FlagOptions.Key opts) = Some v"
  with refreshed found typed named fetched
  show "flagEval (Suc n) E k opts s = Some (returnAsserted k v, s2)"
    by simp
next
  fix ov
  assume "identity.Overrides i (FlagOptions.Key opts) = None"
    and "overrides (fst s2) (FlagOptions.Key opts) = Some ov"
  with refreshed found typed named fetched
  show "flagEval (Suc n) E k opts s = Some (returnAsserted k (override.Value ov), s2)"
    by (simp add: resolve_def)
next
  fix pre r post s3 s4
  assume none: "identity.Overrides i (FlagOptions.Key opts) = None"
    and global: "overrides (fst s2) (FlagOptions.Key opts) = None"
    and rules: "DynamicRules f = pre @ r # post"
    and skipped: "testsFalse (flagEval n E) opts pre s2 = Some s3"
    and matched: "ruleTest (flagEval n E) opts r s3 = Some (Matched, s4)"
  from refreshed found typed named fetched none
  have "flagEval (Suc n) E k opts s = resolve (flagEval n E) k opts f s2"
    by simp
  also from rulesLoop_first_match [OF skipped matched, of k post] rules
  have "rulesLoop (flagEval n E) k opts (DynamicRules f) s2
          = Some (Exit (returnAsserted k (rule.Value r)), s4)"
    by simp
  from resolve_rules [OF global this]
  have "resolve (flagEval n E) k opts f s2 = Some (returnAsserted k (rule.Value r), s4)" .
  finally show "flagEval (Suc n) E k opts s = Some (returnAsserted k (rule.Value r), s4)" .
next
  fix s3
  assume none: "identity.Overrides i (FlagOptions.Key opts) = None"
    and global: "overrides (fst s2) (FlagOptions.Key opts) = None"
    and skipped: "testsFalse (flagEval n E) opts (DynamicRules f) s2 = Some s3"
  from refreshed found typed named fetched none
  have "flagEval (Suc n) E k opts s = resolve (flagEval n E) k opts f s2"
    by simp
  also from resolve_default [OF global rulesLoop_no_match [OF skipped]]
  have "resolve (flagEval n E) k opts f s2 = Some (returnAsserted k (flag.Value f), s3)" .
  finally show "flagEval (Suc n) E k opts s = Some (returnAsserted k (flag.Value f), s3)" .
qed

text \<open>An identity override, a global override, the second of three rules, and a default.\<close>

theorem precedence_chain_witness:
  "BoolFlag (Suc 0) (exEnv 0 stateDown) \<lparr>Key = ''new_feature'', Identifier = ''user_123''\<rparr>
       (exClient, world0)
     = Some (Return (VBool False, None),
             (exClient\<lparr>identities := [(''user_123'', user123)]\<rparr>,
              world0\<lparr>reads := 2, identityCalls := 1\<rparr>))
   \<and> NumberFlag (Suc 0) (exEnv 0 stateDown) \<lparr>Key = ''plan_limit'', Identifier = ''user_123''\<rparr>
       (exClient, world0)
     = Some (Return (VNum 25, None),
             (exClient\<lparr>identities := [(''user_123'', user123)]\<rparr>,
              world0\<lparr>reads := 2, identityCalls := 1\<rparr>))
   \<and> StringFlag (Suc (Suc 0)) (exEnv 0 stateDown) \<lparr>Key = ''tier'', Identifier = ''user_123''\<rparr>
       (exClient, world0)
     = Some (Return (VStr ''beta'', None),
             (exClient\<lparr>identities := [(''user_123'', user123)]\<rparr>,
              world0\<lparr>reads := 6, identityCalls := 1\<rparr>))
   \<and> BoolFlag (Suc 0) (exEnv 0 stateDown) \<lparr>Key = ''is_beta'', Identifier = ''user_123''\<rparr>
       (exClient, world0)
     = Some (Return (VBool True, None),
             (exClient\<lparr>identities := [(''user_123'', user123)]\<rparr>,
              world0\<lparr>reads := 2, identityCalls := 1\<rparr>))"
proof -
  let ?E = "exEnv 0 stateDown"
  let ?s1 = "(exClient, world0\<lparr>reads := 1\<rparr>)"
  let ?c2 = "exClient\<lparr>identities := [(''user_123'', user123)]\<rparr>"
  let ?s2 = "(?c2, world0\<lparr>reads := 2, identityCalls := 1\<rparr>)"
  let ?s3 = "(?c2, world0\<lparr>reads := 4, identityCalls := 1\<rparr>)"
  let ?s4 = "(?c2, world0\<lparr>reads := 6, identityCalls := 1\<rparr>)"
  let ?nf = "\<lparr>Key = ''new_feature'', Identifier = ''user_123''\<rparr>"
  let ?pl = "\<lparr>Key = ''plan_limit'', Identifier = ''user_123''\<rparr>"
  let ?ti = "\<lparr>Key = ''tier'', Identifier = ''user_123''\<rparr>"
  let ?ib = "\<lparr>Key = ''is_beta'', Identifier = ''user_123''\<rparr>"
  have refreshed: "refreshState ?E (exClient, world0) = (Return None, ?s1)"
    by (simp add: eval_defs exEnv_def exClient_def world0_def)
  have fetched: "fetchIdentity ?E (FlagOptions.Identifier ?nf) ?s1 = (Return (Inr user123), ?s2)"
    "fetchIdentity ?E (FlagOptions.Identifier ?pl) ?s1 = (Return (Inr user123), ?s2)"
    "fetchIdentity ?E (FlagOptions.Identifier ?ti) ?s1 = (Return (Inr user123), ?s2)"
    "fetchIdentity ?E (FlagOptions.Identifier ?ib) ?s1 = (Return (Inr user123), ?s2)"
    by (simp_all add: eval_defs exEnv_def exClient_def world0_def user123_def)
  have named: "FlagOptions.Identifier ?nf \<noteq> []" "FlagOptions.Identifier ?pl \<noteq> []"
    "FlagOptions.Identifier ?ti \<noteq> []" "FlagOptions.Identifier ?ib \<noteq> []"
    by simp_all
  have found: "flags (fst ?s1) (FlagOptions.Key ?nf) = Some newFeature"
    "flags (fst ?s1) (FlagOptions.Key ?pl) = Some planLimit"
    "flags (fst ?s1) (FlagOptions.Key ?ti) = Some tier"
    "flags (fst ?s1) (FlagOptions.Key ?ib) = Some isBeta"
    by (simp_all add: exClient_def)
  have typed: "flag.Type newFeature = typeName KBool" "flag.Type planLimit = typeName KNumber"
    "flag.Type tier = typeName KString" "flag.Type isBeta = typeName KBool"
    by (simp_all add: newFeature_def planLimit_def tier_def isBeta_def typeBoolean_def
        typeNumber_def typeString_def)
  have ident: "identity.Overrides user123 (FlagOptions.Key ?nf) = Some (VBool False)"
    "identity.Overrides user123 (FlagOptions.Key ?pl) = None"
    "identity.Overrides user123 (FlagOptions.Key ?ti) = None"
    "identity.Overrides user123 (FlagOptions.Key ?ib) = None"
    by (simp_all add: user123_def)
  have global: "overrides (fst ?s2) (FlagOptions.Key ?pl)
                  = Some \<lparr>override.ID = ''o1'', override.Key = ''plan_limit'',
                          override.Value = VNum 25\<rparr>"
    "overrides (fst ?s2) (FlagOptions.Key ?ti) = None"
    "overrides (fst ?s2) (FlagOptions.Key ?ib) = None"
    by (simp_all add: exClient_def)
  have rules: "DynamicRules tier
                 = [rule_of ''f1'' ''=='' (VBool False) (VStr ''stable'')]
                   @ rule_of ''f1'' ''=='' (VBool True) (VStr ''beta'')
                   # [rule_of ''f1'' ''=='' (VBool True) (VStr ''never'')]"
    by (simp add: tier_def)
  have skipped: "testsFalse (flagEval (Suc 0) ?E) ?ti
                   [rule_of ''f1'' ''=='' (VBool False) (VStr ''stable'')] ?s2 = Some ?s3"
    by (simp add: eval_defs op_defs ex_defs)
  have matched: "ruleTest (flagEval (Suc 0) ?E) ?ti
                   (rule_of ''f1'' ''=='' (VBool True) (VStr ''beta'')) ?s3 = Some (Matched, ?s4)"
    by (simp add: eval_defs op_defs ex_defs)
  have none: "testsFalse (flagEval 0 ?E) ?ib (DynamicRules isBeta) ?s2 = Some ?s2"
    by (simp add: isBeta_def)
  note a = precedence_chain [OF refreshed found(1) typed(1) named(1) fetched(1), of 0,
      THEN conjunct1, rule_format, OF ident(1)]
  note b = precedence_chain [OF refreshed found(2) typed(2) named(2) fetched(2), of 0,
      THEN conjunct2, THEN conjunct1, rule_format, OF ident(2) global(1)]
  note c = precedence_chain [OF refreshed found(3) typed(3) named(3) fetched(3), of "Suc 0",
      THEN conjunct2, THEN conjunct2, THEN conjunct1, rule_format,
      OF ident(3) global(2) rules skipped matched]
  note d = precedence_chain [OF refreshed found(4) typed(4) named(4) fetched(4), of 0,
      THEN conjunct2, THEN conjunct2, THEN conjunct2, rule_format,
      OF ident(4) global(3) none]
  from a b c d show ?thesis
    by (simp add: BoolFlag_def NumberFlag_def StringFlag_def returnAsserted_def rule_of_def
        isBeta_def)
qed




section \<open>Dynamic rules\<close>

text \<open>
  Claim C9. When no identity override and no global override applies, the rules are
  tested in their order, each in the state the one before left; the first rule whose
  test is true gives the result. The state returned is the one after that test, and the
  result is the same whatever rules follow it.
\<close>

theorem first_matching_rule_wins:
  assumes past: "pastIdentity E k opts s = Some (f, s2)"
    and global: "overrides (fst s2) (FlagOptions.Key opts) = None"
    and rules: "DynamicRules f = pre @ r # post"
    and skipped: "testsFalse (flagEval n E) opts pre s2 = Some s3"
    and matched: "ruleTest (flagEval n E) opts r s3 = Some (Matched, s4)"
  shows "flagEval (Suc n) E k opts s = Some (returnAsserted k (rule.Value r), s4)
       \<and> (\<forall>post'. resolve (flagEval n E) k opts (f\<lparr>DynamicRules := pre @ r # post'\<rparr>) s2
                     = Some (returnAsserted k (rule.Value r), s4))"
proof (intro conjI allI)
  from rulesLoop_first_match [OF skipped matched, of k post] rules
  have "rulesLoop (flagEval n E) k opts (DynamicRules f) s2
          = Some (Exit (returnAsserted k (rule.Value r)), s4)"
    by simp
  from resolve_rules [OF global this] flagEval_past [OF past, of n]
  show "flagEval (Suc n) E k opts s = Some (returnAsserted k (rule.Value r), s4)"
    by simp
next
  fix post'
  from rulesLoop_first_match [OF skipped matched, of k post']
  have "rulesLoop (flagEval n E) k opts (DynamicRules (f\<lparr>DynamicRules := pre @ r # post'\<rparr>)) s2
          = Some (Exit (returnAsserted k (rule.Value r)), s4)"
    by simp
  from resolve_rules [OF global this]
  show "resolve (flagEval n E) k opts (f\<lparr>DynamicRules := pre @ r # post'\<rparr>) s2
          = Some (returnAsserted k (rule.Value r), s4)" .
qed

text \<open>The flag \<^verbatim>\<open>tier\<close>: the first rule tests false, the second true, the third is
  never reached.\<close>

theorem first_matching_rule_wins_witness:
  "StringFlag (Suc (Suc 0)) (exEnv 0 stateDown) \<lparr>Key = ''tier'', Identifier = []\<rparr>
       (exClient, world0)
     = Some (Return (VStr ''beta'', None), (exClient, world0\<lparr>reads := 3\<rparr>))"
proof -
  let ?E = "exEnv 0 stateDown"
  let ?ti = "\<lparr>Key = ''tier'', Identifier = []\<rparr>"
  let ?s2 = "(exClient, world0\<lparr>reads := 1\<rparr>)"
  let ?s3 = "(exClient, world0\<lparr>reads := 2\<rparr>)"
  let ?s4 = "(exClient, world0\<lparr>reads := 3\<rparr>)"
  have past: "pastIdentity ?E KString ?ti (exClient, world0) = Some (tier, ?s2)"
    by (simp add: eval_defs exEnv_def exClient_def world0_def tier_def)
  have global: "overrides (fst ?s2) (FlagOptions.Key ?ti) = None"
    by (simp add: exClient_def)
  have rules: "DynamicRules tier
                 = [rule_of ''f1'' ''=='' (VBool False) (VStr ''stable'')]
                   @ rule_of ''f1'' ''=='' (VBool True) (VStr ''beta'')
                   # [rule_of ''f1'' ''=='' (VBool True) (VStr ''never'')]"
    by (simp add: tier_def)
  have skipped: "testsFalse (flagEval (Suc 0) ?E) ?ti
                   [rule_of ''f1'' ''=='' (VBool False) (VStr ''stable'')] ?s2 = Some ?s3"
    by (simp add: eval_defs op_defs ex_defs)
  have matched: "ruleTest (flagEval (Suc 0) ?E) ?ti
                   (rule_of ''f1'' ''=='' (VBool True) (VStr ''beta'')) ?s3 = Some (Matched, ?s4)"
    by (simp add: eval_defs op_defs ex_defs)
  from first_matching_rule_wins [OF past global rules skipped matched, THEN conjunct1]
  show ?thesis
    by (simp add: StringFlag_def returnAsserted_def rule_of_def)
qed

text \<open>
  Claim C5, as the code has it. When the loop reaches a rule whose referenced flag
  evaluates without an error, then an operator that the table of the referenced flag's
  type does not have, or a comparison value that is not of that type, or, when the
  comparison holds, a result value that is not of the entry point's type, makes the
  entry point panic; no error is returned.
\<close>

theorem rule_fault_panics:
  assumes past: "pastIdentity E k opts s = Some (f, s2)"
    and global: "overrides (fst s2) (FlagOptions.Key opts) = None"
    and rules: "DynamicRules f = pre @ r # post"
    and skipped: "testsFalse (flagEval n E) opts pre s2 = Some s3"
    and referenced: "flagsByID (fst s3) (FlagID (Expression r)) = Some ef"
    and kinded: "kindOf (flag.Type ef) = Some ek"
    and evaluated: "flagEval n E ek \<lparr>Key = flag.Key ef, Identifier = FlagOptions.Identifier opts\<rparr> s3
                      = Some (Return (a, None), s4)"
    and fault: "\<not> hasOperator ek (Op (Expression r))
                \<or> \<not> hasKind ek (expression.Value (Expression r))
                \<or> (compareValues ek (Op (Expression r)) a (expression.Value (Expression r)) = Some True
                    \<and> \<not> hasKind k (rule.Value r))"
  shows "flagEval (Suc n) E k opts s = Some (Panic, s4)"
proof -
  from flagEval_kind [OF evaluated] have ka: "hasKind ek a" .
  have loop: "rulesLoop (flagEval n E) k opts (DynamicRules f) s2 = Some (Exit Panic, s4)"
  proof (cases "compareValues ek (Op (Expression r)) a (expression.Value (Expression r))")
    case None
    with referenced kinded evaluated
    have "ruleTest (flagEval n E) opts r s3 = Some (TestPanic, s4)"
      by (simp add: ruleTest_def)
    from rulesLoop_panic [OF skipped this, of k post] rules show ?thesis by simp
  next
    case (Some b)
    with compareValues_panics [OF ka, of "Op (Expression r)" "expression.Value (Expression r)"]
    have "hasOperator ek (Op (Expression r)) \<and> hasKind ek (expression.Value (Expression r))"
      by auto
    with fault Some have b: "b = True" and bad: "\<not> hasKind k (rule.Value r)" by auto
    from referenced kinded evaluated Some b
    have "ruleTest (flagEval n E) opts r s3 = Some (Matched, s4)"
      by (simp add: ruleTest_def)
    from rulesLoop_first_match [OF skipped this, of k post] rules bad show ?thesis
      by (simp add: returnAsserted_def)
  qed
  from resolve_rules [OF global loop] flagEval_past [OF past, of n] show ?thesis by simp
qed

text \<open>The three faults, one flag each.\<close>

theorem rule_fault_panics_witness:
  "BoolFlag (Suc (Suc 0)) (exEnv 0 stateDown) \<lparr>Key = ''bad_op'', Identifier = []\<rparr>
       (exClient, world0)
     = Some (Panic, (exClient, world0\<lparr>reads := 2\<rparr>))
   \<and> BoolFlag (Suc (Suc 0)) (exEnv 0 stateDown) \<lparr>Key = ''bad_value'', Identifier = []\<rparr>
       (exClient, world0)
     = Some (Panic, (exClient, world0\<lparr>reads := 2\<rparr>))
   \<and> BoolFlag (Suc (Suc 0)) (exEnv 0 stateDown) \<lparr>Key = ''bad_result'', Identifier = []\<rparr>
       (exClient, world0)
     = Some (Panic, (exClient, world0\<lparr>reads := 2\<rparr>))"
proof -
  let ?E = "exEnv 0 stateDown"
  let ?s2 = "(exClient, world0\<lparr>reads := 1\<rparr>)"
  let ?s4 = "(exClient, world0\<lparr>reads := 2\<rparr>)"
  let ?bo = "\<lparr>Key = ''bad_op'', Identifier = []\<rparr>"
  let ?bv = "\<lparr>Key = ''bad_value'', Identifier = []\<rparr>"
  let ?br = "\<lparr>Key = ''bad_result'', Identifier = []\<rparr>"
  let ?ro = "rule_of ''f1'' ''<'' (VBool True) (VBool True)"
  let ?rv = "rule_of ''f1'' ''=='' (VStr ''yes'') (VBool True)"
  let ?rr = "rule_of ''f1'' ''=='' (VBool True) (VStr ''on'')"
  have past: "pastIdentity ?E KBool ?bo (exClient, world0) = Some (badOp, ?s2)"
    "pastIdentity ?E KBool ?bv (exClient, world0) = Some (badValue, ?s2)"
    "pastIdentity ?E KBool ?br (exClient, world0) = Some (badResult, ?s2)"
    by (simp_all add: eval_defs exEnv_def exClient_def world0_def badOp_def badValue_def
        badResult_def)
  have global: "overrides (fst ?s2) (FlagOptions.Key ?bo) = None"
    "overrides (fst ?s2) (FlagOptions.Key ?bv) = None"
    "overrides (fst ?s2) (FlagOptions.Key ?br) = None"
    by (simp_all add: exClient_def)
  have rules: "DynamicRules badOp = [] @ ?ro # []" "DynamicRules badValue = [] @ ?rv # []"
    "DynamicRules badResult = [] @ ?rr # []"
    by (simp_all add: badOp_def badValue_def badResult_def)
  have skipped: "testsFalse (flagEval (Suc 0) ?E) ?bo [] ?s2 = Some ?s2"
    "testsFalse (flagEval (Suc 0) ?E) ?bv [] ?s2 = Some ?s2"
    "testsFalse (flagEval (Suc 0) ?E) ?br [] ?s2 = Some ?s2"
    by simp_all
  have referenced: "flagsByID (fst ?s2) (FlagID (Expression ?ro)) = Some isBeta"
    "flagsByID (fst ?s2) (FlagID (Expression ?rv)) = Some isBeta"
    "flagsByID (fst ?s2) (FlagID (Expression ?rr)) = Some isBeta"
    by (simp_all add: exClient_def rule_of_def)
  have kinded: "kindOf (flag.Type isBeta) = Some KBool"
    by (simp add: isBeta_def kindOf_def typeBoolean_def)
  have evaluated:
    "flagEval (Suc 0) ?E KBool \<lparr>Key = flag.Key isBeta, Identifier = FlagOptions.Identifier ?bo\<rparr> ?s2
       = Some (Return (VBool True, None), ?s4)"
    "flagEval (Suc 0) ?E KBool \<lparr>Key = flag.Key isBeta, Identifier = FlagOptions.Identifier ?bv\<rparr> ?s2
       = Some (Return (VBool True, None), ?s4)"
    "flagEval (Suc 0) ?E KBool \<lparr>Key = flag.Key isBeta, Identifier = FlagOptions.Identifier ?br\<rparr> ?s2
       = Some (Return (VBool True, None), ?s4)"
    by (simp_all add: eval_defs exEnv_def exClient_def world0_def isBeta_def)
  have fault_op:
    "\<not> hasOperator KBool (Op (Expression ?ro))
     \<or> \<not> hasKind KBool (expression.Value (Expression ?ro))
     \<or> (compareValues KBool (Op (Expression ?ro)) (VBool True) (expression.Value (Expression ?ro))
           = Some True \<and> \<not> hasKind KBool (rule.Value ?ro))"
    by (simp add: hasOperator_def boolOperations_def rule_of_def)
  have fault_value:
    "\<not> hasOperator KBool (Op (Expression ?rv))
     \<or> \<not> hasKind KBool (expression.Value (Expression ?rv))
     \<or> (compareValues KBool (Op (Expression ?rv)) (VBool True) (expression.Value (Expression ?rv))
           = Some True \<and> \<not> hasKind KBool (rule.Value ?rv))"
    by (simp add: rule_of_def)
  have fault_result:
    "\<not> hasOperator KBool (Op (Expression ?rr))
     \<or> \<not> hasKind KBool (expression.Value (Expression ?rr))
     \<or> (compareValues KBool (Op (Expression ?rr)) (VBool True) (expression.Value (Expression ?rr))
           = Some True \<and> \<not> hasKind KBool (rule.Value ?rr))"
    by (simp add: compareValues_def boolOperations_def rule_of_def)
  note a = rule_fault_panics [OF past(1) global(1) rules(1) skipped(1) referenced(1) kinded
      evaluated(1) fault_op]
  note b = rule_fault_panics [OF past(2) global(2) rules(2) skipped(2) referenced(2) kinded
      evaluated(2) fault_value]
  note c = rule_fault_panics [OF past(3) global(3) rules(3) skipped(3) referenced(3) kinded
      evaluated(3) fault_result]
  from a b c show ?thesis by (simp add: BoolFlag_def)
qed

text \<open>
  Claim C5 as stated fails: the operator \<^verbatim>\<open><\<close> is not in \<open>boolOperations\<close>, the
  comparison value of \<^verbatim>\<open>bad_value\<close> is a string and the result value of
  \<^verbatim>\<open>bad_result\<close> is a string; each evaluation panics.
\<close>

theorem rule_fault_counterexample:
  "BoolFlag (Suc (Suc 0)) (exEnv 0 stateDown) \<lparr>Key = ''bad_op'', Identifier = []\<rparr>
       (exClient, world0)
     = Some (Panic, (exClient, world0\<lparr>reads := 2\<rparr>))
   \<and> boolOperations ''<'' = None
   \<and> BoolFlag (Suc (Suc 0)) (exEnv 0 stateDown) \<lparr>Key = ''bad_value'', Identifier = []\<rparr>
       (exClient, world0)
     = Some (Panic, (exClient, world0\<lparr>reads := 2\<rparr>))
   \<and> BoolFlag (Suc (Suc 0)) (exEnv 0 stateDown) \<lparr>Key = ''bad_result'', Identifier = []\<rparr>
       (exClient, world0)
     = Some (Panic, (exClient, world0\<lparr>reads := 2\<rparr>))"
  by (simp add: BoolFlag_def eval_defs op_defs ex_defs)

text \<open>
  Claim C6, the part the code keeps. When the evaluation of the flag a rule refers to
  returns an error, the entry point returns its zero value and that error, and tests no
  further rule.
\<close>

theorem referenced_failure_aborts:
  assumes past: "pastIdentity E k opts s = Some (f, s2)"
    and global: "overrides (fst s2) (FlagOptions.Key opts) = None"
    and rules: "DynamicRules f = pre @ r # post"
    and skipped: "testsFalse (flagEval n E) opts pre s2 = Some s3"
    and referenced: "flagsByID (fst s3) (FlagID (Expression r)) = Some ef"
    and kinded: "kindOf (flag.Type ef) = Some ek"
    and failed: "flagEval n E ek \<lparr>Key = flag.Key ef, Identifier = FlagOptions.Identifier opts\<rparr> s3
                   = Some (Return (a, Some err), s4)"
  shows "flagEval (Suc n) E k opts s = Some (Return (zeroValue k, Some err), s4)"
proof -
  from referenced kinded failed
  have "ruleTest (flagEval n E) opts r s3 = Some (Abort err, s4)"
    by (simp add: ruleTest_def)
  from rulesLoop_abort [OF skipped this, of k post] rules
  have "rulesLoop (flagEval n E) k opts (DynamicRules f) s2
          = Some (Exit (Return (zeroValue k, Some err)), s4)"
    by simp
  from resolve_rules [OF global this] flagEval_past [OF past, of n] show ?thesis by simp
qed

text \<open>The rule of \<^verbatim>\<open>gated\<close> refers to a boolean flag whose key belongs to a string
  flag.\<close>

theorem referenced_failure_aborts_witness:
  "BoolFlag (Suc (Suc 0)) (exEnv 0 stateDown) \<lparr>Key = ''gated'', Identifier = []\<rparr>
       (exClient, world0)
     = Some (Return (VBool False, Some ErrInvalidFlagType), (exClient, world0\<lparr>reads := 2\<rparr>))"
proof -
  let ?E = "exEnv 0 stateDown"
  let ?s2 = "(exClient, world0\<lparr>reads := 1\<rparr>)"
  let ?s4 = "(exClient, world0\<lparr>reads := 2\<rparr>)"
  let ?ga = "\<lparr>Key = ''gated'', Identifier = []\<rparr>"
  let ?r = "rule_of ''g1'' ''=='' (VBool True) (VBool True)"
  have past: "pastIdentity ?E KBool ?ga (exClient, world0) = Some (gated, ?s2)"
    by (simp add: eval_defs exEnv_def exClient_def world0_def gated_def)
  have global: "overrides (fst ?s2) (FlagOptions.Key ?ga) = None"
    by (simp add: exClient_def)
  have rules: "DynamicRules gated = [] @ ?r # []"
    by (simp add: gated_def)
  have skipped: "testsFalse (flagEval (Suc 0) ?E) ?ga [] ?s2 = Some ?s2"
    by simp
  have referenced: "flagsByID (fst ?s2) (FlagID (Expression ?r)) = Some dupBool"
    by (simp add: exClient_def rule_of_def)
  have kinded: "kindOf (flag.Type dupBool) = Some KBool"
    by (simp add: dupBool_def kindOf_def typeBoolean_def)
  have failed:
    "flagEval (Suc 0) ?E KBool \<lparr>Key = flag.Key dupBool, Identifier = FlagOptions.Identifier ?ga\<rparr> ?s2
       = Some (Return (VBool False, Some ErrInvalidFlagType), ?s4)"
    by (simp add: eval_defs exEnv_def exClient_def world0_def dupBool_def dupString_def)
  from referenced_failure_aborts [OF past global rules skipped referenced kinded failed]
  show ?thesis by (simp add: BoolFlag_def)
qed

text \<open>
  Claim C6 as stated fails where the id a rule refers to is in no flag of the snapshot:
  the lookup gives a nil pointer, reading its \<^verbatim>\<open>Key\<close> panics, and no error is returned.
\<close>

theorem dangling_reference_counterexample:
  "BoolFlag (Suc (Suc 0)) (exEnv 0 stateDown) \<lparr>Key = ''dangling'', Identifier = []\<rparr>
       (exClient, world0)
     = Some (Panic, (exClient, world0\<lparr>reads := 1\<rparr>))
   \<and> flagsByID exClient ''nope'' = None"
  by (simp add: BoolFlag_def eval_defs op_defs ex_defs)

end
